theory Spec2Isabelle
  imports Complex_Main "HOL-Library.Product_Lexorder" "HOL-Library.Multiset"
begin

section \<open>Python strings\<close>

text \<open>
  A Python \<open>str\<close> is modelled as a \<open>string\<close>, one \<open>char\<close> per code point, so the
  model covers the code points 0..255.  The whitespace class (\<open>str.strip\<close>,
  \<open>str.split\<close>, \<open>\s\<close>) is Python's on that whole range.  The case operations
  (\<open>lower\<close>, \<open>upper\<close>, \<open>capitalize\<close>, \<open>isalpha\<close>, \<open>(?i)\<close>) are Python's on
  ASCII; code points 128..255 are left unchanged and count as non-alphabetic, which is
  not what Python's Unicode tables say for all of them, so the results on the place-name
  normaliser are stated for ASCII text.
\<close>

definition isspace :: "char \<Rightarrow> bool" where
  "isspace c \<longleftrightarrow> (of_char c :: nat) \<in> {9, 10, 11, 12, 13, 28, 29, 30, 31, 32, 133, 160}"

definition is_ascii :: "char \<Rightarrow> bool" where
  "is_ascii c \<longleftrightarrow> (of_char c :: nat) < 128"

definition is_upper_az :: "char \<Rightarrow> bool" where
  "is_upper_az c \<longleftrightarrow> 65 \<le> (of_char c :: nat) \<and> (of_char c :: nat) \<le> 90"

definition is_lower_az :: "char \<Rightarrow> bool" where
  "is_lower_az c \<longleftrightarrow> 97 \<le> (of_char c :: nat) \<and> (of_char c :: nat) \<le> 122"

definition is_letter :: "char \<Rightarrow> bool" where
  "is_letter c \<longleftrightarrow> is_upper_az c \<or> is_lower_az c"

definition lower_char :: "char \<Rightarrow> char" where
  "lower_char c = (if is_upper_az c then char_of (of_char c + (32::nat)) else c)"

definition upper_char :: "char \<Rightarrow> char" where
  "upper_char c = (if is_lower_az c then char_of (of_char c - (32::nat)) else c)"

definition lower :: "string \<Rightarrow> string" where
  "lower s = map lower_char s"

definition upper :: "string \<Rightarrow> string" where
  "upper s = map upper_char s"

text \<open>\<open>tok.isalpha()\<close>: non-empty and every character alphabetic.\<close>

definition isalpha :: "string \<Rightarrow> bool" where
  "isalpha s \<longleftrightarrow> s \<noteq> [] \<and> list_all is_letter s"

text \<open>\<open>tok.capitalize()\<close>: first character upper-cased, the rest lower-cased.\<close>

fun capitalize :: "string \<Rightarrow> string" where
  "capitalize [] = []"
| "capitalize (c # cs) = upper_char c # lower cs"

text \<open>\<open>s.strip()\<close> with no argument.\<close>

definition strip :: "string \<Rightarrow> string" where
  "strip s = rev (dropWhile isspace (rev (dropWhile isspace s)))"

text \<open>\<open>s.split()\<close> with no argument: the maximal runs of non-whitespace.\<close>

function split_ws :: "string \<Rightarrow> string list" where
  "split_ws [] = []"
| "split_ws (c # cs) =
     (if isspace c then split_ws cs
      else takeWhile (\<lambda>x. \<not> isspace x) (c # cs) # split_ws (dropWhile (\<lambda>x. \<not> isspace x) cs))"
  by pat_completeness auto
termination
  by (relation "measure length") (auto simp: less_Suc_eq_le length_dropWhile_le)

text \<open>\<open>sep.join(parts)\<close>.\<close>

fun join :: "string \<Rightarrow> string list \<Rightarrow> string" where
  "join sep [] = []"
| "join sep [x] = x"
| "join sep (x # y # ys) = x @ sep @ join sep (y # ys)"

fun starts_with :: "string \<Rightarrow> string \<Rightarrow> bool" where
  "starts_with [] s = True"
| "starts_with (w # ws) [] = False"
| "starts_with (w # ws) (c # cs) = (w = c \<and> starts_with ws cs)"

text \<open>\<open>w in s\<close> for strings.\<close>

fun contains :: "string \<Rightarrow> string \<Rightarrow> bool" where
  "contains w [] = (w = [])"
| "contains w (c # cs) = (starts_with w (c # cs) \<or> contains w cs)"

text \<open>\<open>x or ""\<close> for \<open>x\<close> a \<open>str\<close> or \<open>None\<close>.\<close>

definition or_empty :: "string option \<Rightarrow> string" where
  "or_empty x = (case x of None \<Rightarrow> [] | Some s \<Rightarrow> s)"

section \<open>The place-name normaliser (\<open>_normalize_place_text\<close>)\<close>

text \<open>
  \<open>re.sub(fr"(?i)([a-z])({word})", r"\1 \2", s)\<close>: scanning from the left, a letter
  directly followed by \<open>word\<close> (any case) gets a space inserted after it, and the scan
  resumes behind the match.  The counter is the number of characters of the current match
  still to be copied.
\<close>

fun sub_jammed :: "string \<Rightarrow> nat \<Rightarrow> string \<Rightarrow> string" where
  "sub_jammed w k [] = []"
| "sub_jammed w (Suc k) (c # cs) = c # sub_jammed w k cs"
| "sub_jammed w 0 (c # cs) =
     (if is_letter c \<and> starts_with w (lower cs)
      then c # CHR '' '' # sub_jammed w (length w) cs
      else c # sub_jammed w 0 cs)"

definition suffix_words :: "string list" where
  "suffix_words = [''university'', ''college'', ''institute'', ''technology'', ''school'']"

text \<open>The \<open>for word in [...]\<close> loop around the substitution.\<close>

definition split_suffixes :: "string \<Rightarrow> string" where
  "split_suffixes s = fold (\<lambda>w t. sub_jammed w 0 t) suffix_words s"

text \<open>\<open>re.sub(r"(?i)^lj\s*", "LJ ", s)\<close>.\<close>

definition sub_lj :: "string \<Rightarrow> string" where
  "sub_lj s = (if starts_with ''lj'' (lower s) then ''LJ '' @ dropWhile isspace (drop 2 s) else s)"

text \<open>\<open>re.sub(r"(?i)^(lj)(university)", r"LJ University", s)\<close>.\<close>

definition sub_ljuniversity :: "string \<Rightarrow> string" where
  "sub_ljuniversity s =
     (if starts_with ''ljuniversity'' (lower s) then ''LJ University'' @ drop 12 s else s)"

text \<open>The body of the \<open>for tok in s.split()\<close> loop.\<close>

definition case_token :: "string \<Rightarrow> string" where
  "case_token tok = (if length tok \<le> 3 \<and> isalpha tok then upper tok else capitalize tok)"

text \<open>
  \<open>_normalize_place_text(text)\<close>.  Every caller passes a \<open>str\<close> (\<open>city or ""\<close>), on
  which \<open>text or ""\<close> is the identity.
\<close>

definition normalize_place_text :: "string \<Rightarrow> string" where
  "normalize_place_text text =
     (let s = join '' '' (split_ws (strip text)) in
      if s = [] then s
      else join '' '' (map case_token (split_ws (sub_ljuniversity (sub_lj (split_suffixes s))))))"

text \<open>
  Lines 1438 to 1440 of \<open>_address_to_latlng_with_debug\<close>: the normalised address that is
  stored in the debug record and sent to every provider.
\<close>

definition with_country :: "string \<Rightarrow> string" where
  "with_country s = (if s \<noteq> [] \<and> \<not> contains ''india'' (lower s) then s @ '', India'' else s)"

definition normalize_address :: "string option \<Rightarrow> string" where
  "normalize_address address = with_country (join '' '' (split_ws (strip (or_empty address))))"

section \<open>JSON values and Python's operations on them\<close>

text \<open>
  Decoded JSON.  Numbers are rationals: the rounding of Python floats plays no part in
  what follows, and the non-finite values are outside the model.  An object is the list of
  its items; where a key occurs twice the first occurrence counts.
\<close>

datatype json =
    JNull
  | JBool bool
  | JNum rat
  | JStr string
  | JArr "json list"
  | JObj "(string \<times> json) list"

datatype exn =
    AttributeError
  | KeyError
  | TypeError
  | IndexError
  | ValueError
  | JSONDecodeError
  | UnboundLocalError
  | RequestError string

text \<open>\<open>str(e)\<close>: the message of a transport error; for the built-in errors the text
  is abstracted to the name of the class.\<close>

fun str_exn :: "exn \<Rightarrow> string" where
  "str_exn AttributeError = ''AttributeError''"
| "str_exn KeyError = ''KeyError''"
| "str_exn TypeError = ''TypeError''"
| "str_exn IndexError = ''IndexError''"
| "str_exn ValueError = ''ValueError''"
| "str_exn JSONDecodeError = ''JSONDecodeError''"
| "str_exn UnboundLocalError = ''UnboundLocalError''"
| "str_exn (RequestError msg) = msg"

text \<open>Sequencing of computations that may raise.\<close>

definition bind_exn :: "exn + 'a \<Rightarrow> ('a \<Rightarrow> exn + 'b) \<Rightarrow> exn + 'b" where
  "bind_exn m f = (case m of Inl e \<Rightarrow> Inl e | Inr x \<Rightarrow> f x)"

text \<open>Truth value of an object (\<open>if x:\<close>, \<open>x or y\<close>, \<open>not x\<close>).\<close>

fun truthy :: "json \<Rightarrow> bool" where
  "truthy JNull = False"
| "truthy (JBool b) = b"
| "truthy (JNum r) = (r \<noteq> 0)"
| "truthy (JStr s) = (s \<noteq> [])"
| "truthy (JArr xs) = (xs \<noteq> [])"
| "truthy (JObj kvs) = (kvs \<noteq> [])"

definition py_or :: "json \<Rightarrow> json \<Rightarrow> json" where
  "py_or x y = (if truthy x then x else y)"

text \<open>\<open>d.get(k, default)\<close>; only a dict has the method.\<close>

fun dict_get :: "json \<Rightarrow> string \<Rightarrow> json \<Rightarrow> exn + json" where
  "dict_get (JObj kvs) k d = Inr (case map_of kvs k of Some v \<Rightarrow> v | None \<Rightarrow> d)"
| "dict_get _ k d = Inl AttributeError"

text \<open>\<open>x[k]\<close> for a string key.\<close>

fun item :: "json \<Rightarrow> string \<Rightarrow> exn + json" where
  "item (JObj kvs) k = (case map_of kvs k of Some v \<Rightarrow> Inr v | None \<Rightarrow> Inl KeyError)"
| "item _ k = Inl TypeError"

text \<open>\<open>x[i]\<close> for an index \<open>i \<ge> 0\<close>.\<close>

fun index :: "json \<Rightarrow> nat \<Rightarrow> exn + json" where
  "index (JArr xs) i = (if i < length xs then Inr (xs ! i) else Inl IndexError)"
| "index (JStr s) i = (if i < length s then Inr (JStr [s ! i]) else Inl IndexError)"
| "index (JObj kvs) i = Inl KeyError"
| "index _ i = Inl TypeError"

text \<open>The elements that \<open>for x in v\<close> visits.\<close>

fun iter :: "json \<Rightarrow> exn + json list" where
  "iter (JArr xs) = Inr xs"
| "iter (JStr s) = Inr (map (\<lambda>c. JStr [c]) s)"
| "iter (JObj kvs) = Inr (map JStr (remdups (map fst kvs)))"
| "iter _ = Inl TypeError"

text \<open>A query parameter as \<open>request.GET.get\<close> returns it.\<close>

definition param :: "string option \<Rightarrow> json" where
  "param x = (case x of None \<Rightarrow> JNull | Some s \<Rightarrow> JStr s)"

section \<open>The providers\<close>

text \<open>
  What one outbound call comes back with: \<open>requests\<close> raises, or there is a response
  with a status code whose body decodes to JSON (\<open>Some\<close>) or does not (\<open>None\<close>, where
  \<open>r.json()\<close> raises).
\<close>

datatype http = Failure string | Response int "json option"

text \<open>
  The calls the pipeline makes, with the part of their parameters that varies.  The
  f-strings that format coordinates into \<open>location\<close>, \<open>locationbias\<close>, \<open>origins\<close> and
  \<open>destinations\<close> are kept as the values they format.
\<close>

datatype request =
    AddressValidation string
  | TextSearch string "(json \<times> json) option"
  | FindPlace string "(json \<times> json) option"
  | Geolocate
  | NearbySearch rat rat nat
  | DistanceMatrix rat rat "(json \<times> json) list"

text \<open>
  The network: the answer to the \<open>n\<close>-th outbound call of the request being served, and
  the calls made so far.
\<close>

record net =
  script :: "nat \<Rightarrow> http"
  sent :: "request list"

definition send :: "request \<Rightarrow> net \<Rightarrow> http \<times> net" where
  "send rq n = (script n (length (sent n)), n\<lparr>sent := sent n @ [rq]\<rparr>)"

text \<open>\<open>r = requests.get(...); j = r.json()\<close>, keeping \<open>r.status_code\<close>.\<close>

fun json_of :: "http \<Rightarrow> exn + (int \<times> json)" where
  "json_of (Failure msg) = Inl (RequestError msg)"
| "json_of (Response st None) = Inl JSONDecodeError"
| "json_of (Response st (Some j)) = Inr (st, j)"

text \<open>A network that answers from a list and is unreachable afterwards.\<close>

definition answers :: "http list \<Rightarrow> net" where
  "answers rs = \<lparr>script = (\<lambda>i. if i < length rs then rs ! i else Failure ''unreachable''), sent = []\<rparr>"

section \<open>Geocoding an address (\<open>_address_to_latlng_with_debug\<close>)\<close>

text \<open>The debug entry of an \<open>except Exception as e\<close> branch.\<close>

definition error_entry :: "string \<Rightarrow> (string \<times> json) list \<Rightarrow> exn \<Rightarrow> json" where
  "error_entry typ extra e = JObj ([(''type'', JStr typ)] @ extra @ [(''error'', JStr (str_exn e))])"

text \<open>\<open>j.get("result", {}).get("verdict", {}).get("addressComplete", None)\<close>.\<close>

definition address_complete :: "json \<Rightarrow> exn + json" where
  "address_complete j =
     bind_exn (dict_get j ''result'' (JObj [])) (\<lambda>r.
     bind_exn (dict_get r ''verdict'' (JObj [])) (\<lambda>v.
     dict_get v ''addressComplete'' JNull))"

text \<open>\<open>j.get("result", {}).get("geocode", {}).get("location", {}).get(k)\<close>.\<close>

definition geocode_field :: "json \<Rightarrow> string \<Rightarrow> exn + json" where
  "geocode_field j k =
     bind_exn (dict_get j ''result'' (JObj [])) (\<lambda>r.
     bind_exn (dict_get r ''geocode'' (JObj [])) (\<lambda>g.
     bind_exn (dict_get g ''location'' (JObj [])) (\<lambda>l.
     dict_get l k JNull)))"

text \<open>
  \<open>results = j.get(key) or []\<close> followed by
  \<open>if results: loc = results[0]["geometry"]["location"]\<close> and the pair
  \<open>loc.get("lat"), loc.get("lng")\<close>; \<open>None\<close> when \<open>results\<close> is false.
\<close>

definition first_location :: "json \<Rightarrow> string \<Rightarrow> exn + (json \<times> json) option" where
  "first_location j key =
     bind_exn (dict_get j key JNull) (\<lambda>r.
       let results = py_or r (JArr []) in
       if truthy results then
         bind_exn (index results 0) (\<lambda>x.
         bind_exn (item x ''geometry'') (\<lambda>g.
         bind_exn (item g ''location'') (\<lambda>loc.
         bind_exn (dict_get loc ''lat'' JNull) (\<lambda>la.
         bind_exn (dict_get loc ''lng'' JNull) (\<lambda>ln.
         Inr (Some (la, ln)))))))
       else Inr None)"

text \<open>\<open>"api_status": j.get("status"), "error_message": j.get("error_message")\<close>.\<close>

definition api_fields :: "json \<Rightarrow> exn + (string \<times> json) list" where
  "api_fields j =
     bind_exn (dict_get j ''status'' JNull) (\<lambda>s.
     bind_exn (dict_get j ''error_message'' JNull) (\<lambda>m.
     Inr [(''api_status'', s), (''error_message'', m)]))"

text \<open>
  One \<open>try\<close> block of the address-validation kind: the entries it appends to the trail
  and the coordinate it returns with, if it returns.  \<open>extra\<close> computes the further
  fields of its entry (they are evaluated before the entry is appended).
\<close>

definition validation_attempt ::
  "string \<Rightarrow> (json \<Rightarrow> exn + (string \<times> json) list) \<Rightarrow> http \<Rightarrow> json list \<times> (json \<times> json) option" where
  "validation_attempt typ extra out =
     (case bind_exn (json_of out) (\<lambda>(st, j). bind_exn (extra j) (\<lambda>fs. Inr (st, j, fs))) of
        Inl e \<Rightarrow> ([error_entry typ [] e], None)
      | Inr (st, j, fs) \<Rightarrow>
          let entry = JObj ([(''type'', JStr typ), (''status'', JNum (of_int st))] @ fs) in
          (case bind_exn (geocode_field j ''latitude'') (\<lambda>lat.
                bind_exn (geocode_field j ''longitude'') (\<lambda>lng. Inr (lat, lng))) of
             Inl e \<Rightarrow> ([entry, error_entry typ [] e], None)
           | Inr (lat, lng) \<Rightarrow>
               if lat \<noteq> JNull \<and> lng \<noteq> JNull then ([entry], Some (lat, lng)) else ([entry], None)))"

text \<open>
  One \<open>try\<close> block of the text-search or find-place kind; \<open>key\<close> is \<open>"results"\<close> or
  \<open>"candidates"\<close>, \<open>q\<close> the \<open>"query"\<close> field of the entries that have one, \<open>qe\<close> the same
  for the entry of the \<open>except\<close> branch.
\<close>

definition places_attempt ::
  "string \<Rightarrow> string \<Rightarrow> (string \<times> json) list \<Rightarrow> (string \<times> json) list \<Rightarrow> http
     \<Rightarrow> json list \<times> (json \<times> json) option" where
  "places_attempt typ key q qe out =
     (case bind_exn (json_of out) (\<lambda>(st, j). bind_exn (api_fields j) (\<lambda>fs. Inr (st, j, fs))) of
        Inl e \<Rightarrow> ([error_entry typ qe e], None)
      | Inr (st, j, fs) \<Rightarrow>
          let entry = JObj ([(''type'', JStr typ)] @ q @ [(''status'', JNum (of_int st))] @ fs) in
          (case first_location j key of
             Inl e \<Rightarrow> ([entry, error_entry typ qe e], None)
           | Inr None \<Rightarrow> ([entry], None)
           | Inr (Some loc) \<Rightarrow> ([entry], Some loc)))"

definition body_status :: "json \<Rightarrow> exn + (string \<times> json) list" where
  "body_status j = bind_exn (address_complete j) (\<lambda>b. Inr [(''body_status'', b)])"

definition no_fields :: "json \<Rightarrow> exn + (string \<times> json) list" where
  "no_fields j = Inr []"

record debug =
  normalized :: string
  attempts :: "json list"

text \<open>
  \<open>_address_to_latlng_with_debug(address)\<close>: \<open>(lat, lng, debug)\<close> and the network after
  the calls.
\<close>

definition address_to_latlng_with_debug ::
  "string option \<Rightarrow> net \<Rightarrow> (json \<times> json \<times> debug) \<times> net" where
  "address_to_latlng_with_debug address n0 =
     (let norm = normalize_address address in
      if norm = [] then ((JNull, JNull, \<lparr>normalized = norm, attempts = []\<rparr>), n0)
      else
        let (out1, n1) = send (AddressValidation norm) n0;
            (t1, r1) = validation_attempt ''addressvalidation'' body_status out1 in
        case r1 of
          Some (lat, lng) \<Rightarrow> ((lat, lng, \<lparr>normalized = norm, attempts = t1\<rparr>), n1)
        | None \<Rightarrow>
            let (out2, n2) = send (TextSearch norm None) n1;
                (t2, r2) = places_attempt ''textsearch'' ''results'' [] [] out2 in
            (case r2 of
               Some (lat, lng) \<Rightarrow> ((lat, lng, \<lparr>normalized = norm, attempts = t1 @ t2\<rparr>), n2)
             | None \<Rightarrow>
                 let (out3, n3) = send (FindPlace norm None) n2;
                     (t3, r3) = places_attempt ''findplace'' ''candidates'' [] [] out3 in
                 (case r3 of
                    Some (lat, lng) \<Rightarrow>
                      ((lat, lng, \<lparr>normalized = norm, attempts = t1 @ t2 @ t3\<rparr>), n3)
                  | None \<Rightarrow>
                      ((JNull, JNull, \<lparr>normalized = norm, attempts = t1 @ t2 @ t3\<rparr>), n3))))"

section \<open>Geocoding a city and an area (\<open>_geocode_city_area\<close>)\<close>

text \<open>
  The fallback of the city stage: the entry is appended first, then \<open>city_lat\<close> and
  \<open>city_lng\<close> are assigned one after the other, so a raise between them keeps the old
  \<open>city_lng\<close>.
\<close>

definition city_validation :: "http \<Rightarrow> json \<times> json \<Rightarrow> json list \<times> (json \<times> json)" where
  "city_validation out old =
     (case json_of out of
        Inl e \<Rightarrow> ([error_entry ''city_addressvalidation'' [] e], old)
      | Inr (st, j) \<Rightarrow>
          let entry = JObj [(''type'', JStr ''city_addressvalidation''), (''status'', JNum (of_int st))] in
          (case geocode_field j ''latitude'' of
             Inl e \<Rightarrow> ([entry, error_entry ''city_addressvalidation'' [] e], old)
           | Inr lat \<Rightarrow>
               (case geocode_field j ''longitude'' of
                  Inl e \<Rightarrow> ([entry, error_entry ''city_addressvalidation'' [] e], (lat, snd old))
                | Inr lng \<Rightarrow> ([entry], (lat, lng)))))"

text \<open>Stage 1: the steps recorded, \<open>(city_lat, city_lng)\<close> and the network afterwards.\<close>

definition city_stage :: "string \<Rightarrow> net \<Rightarrow> json list \<times> (json \<times> json) \<times> net" where
  "city_stage city_query n0 =
     (let (out1, n1) = send (TextSearch city_query None) n0;
          (t1, r1) = places_attempt ''city_textsearch'' ''results'' [] [] out1;
          c1 = (case r1 of Some loc \<Rightarrow> loc | None \<Rightarrow> (JNull, JNull)) in
      if fst c1 = JNull \<or> snd c1 = JNull then
        let (out2, n2) = send (AddressValidation city_query) n1;
            (t2, c2) = city_validation out2 c1 in
        (t1 @ t2, c2, n2)
      else (t1, c1, n1))"

definition is_digit :: "char \<Rightarrow> bool" where
  "is_digit c \<longleftrightarrow> 48 \<le> (of_char c :: nat) \<and> (of_char c :: nat) \<le> 57"

definition variant_words :: "string list" where
  "variant_words = [''university'', ''college'', ''institute'', ''technology'', ''school'']"

text \<open>
  \<open>re.sub(r"(?<=\D)(?=University|College|Institute|Technology|School)", " ", area,
  flags=re.I)\<close>: a space goes in at every position that has a non-digit before it and one
  of the words (any case) after it.  The first argument is the character before the
  position, if there is one.
\<close>

fun sub_variant :: "char option \<Rightarrow> string \<Rightarrow> string" where
  "sub_variant prev [] = []"
| "sub_variant prev (c # cs) =
     (if (case prev of None \<Rightarrow> False | Some p \<Rightarrow> \<not> is_digit p)
         \<and> list_ex (\<lambda>w. starts_with w (lower (c # cs))) variant_words
      then CHR '' '' # c # sub_variant (Some c) cs
      else c # sub_variant (Some c) cs)"

text \<open>\<open>[v for v in area_variants if v]\<close>.\<close>

definition area_variants :: "string \<Rightarrow> string list" where
  "area_variants area =
     filter (\<lambda>v. v \<noteq> [])
       ([area] @ (if area \<noteq> [] \<and> \<not> contains '' '' area then [sub_variant None area] else []))"

text \<open>The \<open>for av in ...\<close> loop over find-place, which returns at the first location.\<close>

fun find_place_loop ::
  "string list \<Rightarrow> json \<times> json \<Rightarrow> net \<Rightarrow> json list \<times> (json \<times> json) option \<times> net" where
  "find_place_loop [] centre n0 = ([], None, n0)"
| "find_place_loop (av # avs) centre n0 =
     (let (out, n1) = send (FindPlace av (Some centre)) n0;
          (t, r) = places_attempt ''area_findplace'' ''candidates''
                     [(''query'', JStr av)] [(''query'', JStr av)] out in
      case r of
        Some loc \<Rightarrow> (t, Some loc, n1)
      | None \<Rightarrow> (let (ts, r', n2) = find_place_loop avs centre n1 in (t @ ts, r', n2)))"

record city_debug =
  dbg_city :: json
  dbg_area :: json
  steps :: "json list"

text \<open>\<open>f"{area}, {city}" if city else area\<close>.\<close>

definition area_line :: "string \<Rightarrow> string \<Rightarrow> string" where
  "area_line area city = (if city \<noteq> [] then area @ '', '' @ city else area)"

text \<open>Stage 2, for a non-empty area and a resolved city.\<close>

definition refine_area ::
  "string \<Rightarrow> string \<Rightarrow> json \<times> json \<Rightarrow> net \<Rightarrow> json list \<times> (json \<times> json) \<times> net" where
  "refine_area area city centre n0 =
     (let (t1, r1, n1) = find_place_loop (area_variants area) centre n0 in
      case r1 of
        Some loc \<Rightarrow> (t1, loc, n1)
      | None \<Rightarrow>
          let (out2, n2) = send (AddressValidation (area_line area city)) n1;
              (t2, r2) = validation_attempt ''area_addressvalidation'' no_fields out2 in
          (case r2 of
             Some loc \<Rightarrow> (t1 @ t2, loc, n2)
           | None \<Rightarrow>
               let (out3, n3) = send (TextSearch (area_line area city) (Some centre)) n2;
                   (t3, r3) = places_attempt ''area_textsearch_bias'' ''results''
                                [(''query'', JStr (area_line area city))] [] out3 in
               (case r3 of
                  Some loc \<Rightarrow> (t1 @ t2 @ t3, loc, n3)
                | None \<Rightarrow> (t1 @ t2 @ t3, centre, n3))))"

text \<open>\<open>_geocode_city_area(city, area)\<close>.\<close>

definition geocode_city_area ::
  "string option \<Rightarrow> string option \<Rightarrow> net \<Rightarrow> (json \<times> json \<times> city_debug) \<times> net" where
  "geocode_city_area city0 area0 n0 =
     (let dbg = \<lparr>dbg_city = param city0, dbg_area = param area0, steps = []\<rparr>;
          city = normalize_place_text (or_empty city0);
          area = normalize_place_text (or_empty area0) in
      if city = [] \<and> area = [] then ((JNull, JNull, dbg), n0)
      else
        let city_query = with_country (if city \<noteq> [] then city else area);
            (t1, centre, n1) = city_stage city_query n0 in
        if fst centre = JNull \<or> snd centre = JNull then ((JNull, JNull, dbg\<lparr>steps := t1\<rparr>), n1)
        else if area = [] then ((fst centre, snd centre, dbg\<lparr>steps := t1\<rparr>), n1)
        else
          let (t2, loc, n2) = refine_area area city centre n1 in
          ((fst loc, snd loc, dbg\<lparr>steps := t1 @ t2\<rparr>), n2))"

section \<open>Device location and nearby places (\<open>_geolocate\<close>, \<open>_places_nearby\<close>)\<close>

definition geolocate :: "net \<Rightarrow> (json \<times> json) \<times> net" where
  "geolocate n0 =
     (let (out, n1) = send Geolocate n0 in
      case bind_exn (json_of out) (\<lambda>(st, data).
           bind_exn (dict_get data ''location'' JNull) (\<lambda>l.
             let loc = py_or l (JObj []) in
             bind_exn (dict_get loc ''lat'' JNull) (\<lambda>a.
             bind_exn (dict_get loc ''latitude'' JNull) (\<lambda>b.
             bind_exn (dict_get loc ''lng'' JNull) (\<lambda>c.
             bind_exn (dict_get loc ''longitude'' JNull) (\<lambda>d.
             Inr (py_or a b, py_or c d))))))) of
        Inl e \<Rightarrow> ((JNull, JNull), n1)
      | Inr (lat, lng) \<Rightarrow>
          if lat \<noteq> JNull \<and> lng \<noteq> JNull then ((lat, lng), n1) else ((JNull, JNull), n1))"

definition places_nearby :: "rat \<Rightarrow> rat \<Rightarrow> net \<Rightarrow> (exn + json) \<times> net" where
  "places_nearby lat lng n0 =
     (let (out, n1) = send (NearbySearch lat lng 15000) n0 in
      (bind_exn (json_of out) (\<lambda>(st, j). dict_get j ''results'' (JArr [])), n1))"

section \<open>Ranking by travel time (\<open>_distance_matrix\<close>)\<close>

fun traverse :: "('a \<Rightarrow> exn + 'b) \<Rightarrow> 'a list \<Rightarrow> exn + 'b list" where
  "traverse f [] = Inr []"
| "traverse f (x # xs) =
     bind_exn (f x) (\<lambda>y. bind_exn (traverse f xs) (\<lambda>ys. Inr (y # ys)))"

text \<open>\<open>p['geometry']['location'][k]\<close>.\<close>

definition place_coord :: "json \<Rightarrow> string \<Rightarrow> exn + json" where
  "place_coord p k =
     bind_exn (item p ''geometry'') (\<lambda>g. bind_exn (item g ''location'') (\<lambda>l. item l k))"

text \<open>The coordinates that the generator joins into \<open>destinations\<close>.\<close>

definition destinations :: "json \<Rightarrow> exn + (json \<times> json) list" where
  "destinations places =
     bind_exn (iter places)
       (traverse (\<lambda>p. bind_exn (place_coord p ''lat'') (\<lambda>a.
                      bind_exn (place_coord p ''lng'') (\<lambda>b. Inr (a, b)))))"

text \<open>\<open>(data.get("rows") or [{}])[0].get("elements") or []\<close>, as the loop visits it.\<close>

definition elements_of :: "json \<Rightarrow> exn + json list" where
  "elements_of data =
     bind_exn (dict_get data ''rows'' JNull) (\<lambda>rows.
     bind_exn (index (py_or rows (JArr [JObj []])) 0) (\<lambda>row.
     bind_exn (dict_get row ''elements'' JNull) (\<lambda>els.
     iter (py_or els (JArr [])))))"

text \<open>The dict appended to \<open>paired\<close> for element \<open>el\<close> at position \<open>idx\<close>.\<close>

definition make_entry :: "json \<Rightarrow> nat \<Rightarrow> json \<Rightarrow> exn + json" where
  "make_entry places idx el =
     bind_exn (index places idx) (\<lambda>p.
     bind_exn (dict_get p ''name'' JNull) (\<lambda>name.
     bind_exn (dict_get p ''vicinity'' (JStr [])) (\<lambda>vicinity.
     bind_exn (place_coord p ''lat'') (\<lambda>lat.
     bind_exn (place_coord p ''lng'') (\<lambda>lng.
     bind_exn (bind_exn (item el ''distance'') (\<lambda>d. item d ''text'')) (\<lambda>distance_text.
     bind_exn (bind_exn (item el ''distance'') (\<lambda>d. item d ''value'')) (\<lambda>distance_value.
     bind_exn (bind_exn (item el ''duration'') (\<lambda>d. item d ''text'')) (\<lambda>duration_text.
     bind_exn (bind_exn (item el ''duration'') (\<lambda>d. item d ''value'')) (\<lambda>duration_value.
     bind_exn (dict_get p ''place_id'' JNull) (\<lambda>place_id.
     bind_exn (dict_get p ''rating'' JNull) (\<lambda>rating.
     Inr (JObj [(''name'', name), (''address'', vicinity), (''lat'', lat), (''lng'', lng),
                (''distance_text'', distance_text), (''distance_value'', distance_value),
                (''duration_text'', duration_text), (''duration_value'', duration_value),
                (''place_id'', place_id), (''rating'', rating)]))))))))))))"

text \<open>\<open>el.get("status") == "OK"\<close>.\<close>

definition status_ok :: "json \<Rightarrow> exn + bool" where
  "status_ok el = bind_exn (dict_get el ''status'' JNull) (\<lambda>s. Inr (s = JStr ''OK''))"

text \<open>The \<open>for idx, el in enumerate(elements)\<close> loop, from position \<open>idx\<close> on.\<close>

fun pair_elements :: "json \<Rightarrow> nat \<Rightarrow> json list \<Rightarrow> exn + json list" where
  "pair_elements places idx [] = Inr []"
| "pair_elements places idx (el # els) =
     bind_exn (status_ok el) (\<lambda>ok.
       if ok then
         bind_exn (make_entry places idx el) (\<lambda>e.
         bind_exn (pair_elements places (Suc idx) els) (\<lambda>rest. Inr (e # rest)))
       else pair_elements places (Suc idx) els)"

text \<open>The sort key \<open>(x["duration_value"], x["distance_value"])\<close> of an entry.\<close>

definition sort_key_of :: "json \<Rightarrow> exn + (json \<times> json)" where
  "sort_key_of x =
     bind_exn (item x ''duration_value'') (\<lambda>d.
     bind_exn (item x ''distance_value'') (\<lambda>m. Inr (d, m)))"

text \<open>\<open>None\<close>, booleans, numbers and strings.\<close>

fun scalar :: "json \<Rightarrow> bool" where
  "scalar (JArr xs) = False"
| "scalar (JObj kvs) = False"
| "scalar _ = True"

text \<open>A value as a number; \<open>True\<close> and \<open>False\<close> compare as 1 and 0.\<close>

fun key_num :: "json \<Rightarrow> rat option" where
  "key_num (JNum r) = Some r"
| "key_num (JBool b) = Some (if b then 1 else 0)"
| "key_num _ = None"

text \<open>\<open>a == b\<close> for scalars.\<close>

definition py_eq :: "json \<Rightarrow> json \<Rightarrow> bool" where
  "py_eq a b =
     (case (key_num a, key_num b) of
        (Some x, Some y) \<Rightarrow> x = y
      | (None, None) \<Rightarrow> a = b
      | _ \<Rightarrow> False)"

text \<open>\<open>s < t\<close> for strings: by code points, a proper prefix first.\<close>

fun str_lt :: "string \<Rightarrow> string \<Rightarrow> bool" where
  "str_lt [] [] = False"
| "str_lt [] (y # ys) = True"
| "str_lt (x # xs) [] = False"
| "str_lt (x # xs) (y # ys) =
     ((of_char x :: nat) < of_char y \<or> (x = y \<and> str_lt xs ys))"

text \<open>
  \<open>a < b\<close> for scalars: numbers with numbers, strings with strings; \<open>None\<close> stands for
  the \<open>TypeError\<close> of every other pair.
\<close>

definition py_lt :: "json \<Rightarrow> json \<Rightarrow> bool option" where
  "py_lt a b =
     (case (key_num a, key_num b) of
        (Some x, Some y) \<Rightarrow> Some (x < y)
      | (None, None) \<Rightarrow> (case (a, b) of (JStr s, JStr t) \<Rightarrow> Some (str_lt s t) | _ \<Rightarrow> None)
      | _ \<Rightarrow> None)"

text \<open>
  \<open>k < l\<close> for two keys, as tuples are compared: the first components that are not
  equal decide.
\<close>

definition key_lt :: "json \<times> json \<Rightarrow> json \<times> json \<Rightarrow> bool option" where
  "key_lt k l =
     (if \<not> py_eq (fst k) (fst l) then py_lt (fst k) (fst l)
      else if \<not> py_eq (snd k) (snd l) then py_lt (snd k) (snd l)
      else Some False)"

text \<open>Keys of scalars of which every two can be compared without a \<open>TypeError\<close>.\<close>

definition comparable :: "(json \<times> json) list \<Rightarrow> bool" where
  "comparable ks \<longleftrightarrow>
     list_all (\<lambda>k. scalar (fst k) \<and> scalar (snd k)) ks
     \<and> list_all (\<lambda>k. list_all (\<lambda>l. key_lt k l \<noteq> None) ks) ks"

text \<open>The stable sort of entries with their keys: each goes in before the first key that is
  not smaller than its own.\<close>

fun insert_keyed ::
  "(json \<times> json) \<times> json \<Rightarrow> ((json \<times> json) \<times> json) list \<Rightarrow> ((json \<times> json) \<times> json) list" where
  "insert_keyed x [] = [x]"
| "insert_keyed x (y # ys) =
     (if key_lt (fst y) (fst x) = Some True then y # insert_keyed x ys else x # y # ys)"

definition stable_sort :: "((json \<times> json) \<times> json) list \<Rightarrow> ((json \<times> json) \<times> json) list" where
  "stable_sort xs = foldr insert_keyed xs []"

text \<open>
  \<open>paired.sort(key=lambda x: (x["duration_value"], x["distance_value"]))\<close>.  The keys
  are computed first.  With fewer than two entries nothing is compared.  Where the keys
  are comparable, no comparison raises and the result is the stable sort, whichever pairs
  the interpreter compares.  Elsewhere (two keys that cannot be compared, or a list or an
  object in a key) what happens depends on the pairs that the interpreter's sorting
  algorithm compares; the model takes it from \<open>sort_rest\<close>.
\<close>

definition rank :: "(json list \<Rightarrow> exn + json list) \<Rightarrow> json list \<Rightarrow> exn + json list" where
  "rank sort_rest paired =
     bind_exn (traverse sort_key_of paired) (\<lambda>keys.
       if length paired \<le> 1 then Inr paired
       else if comparable keys then Inr (map snd (stable_sort (zip keys paired)))
       else sort_rest paired)"

text \<open>The key of an entry as a pair of numbers, when both components are numbers.\<close>

definition entry_key :: "json \<Rightarrow> (rat \<times> rat) option" where
  "entry_key x =
     (case (item x ''duration_value'', item x ''distance_value'') of
        (Inr d, Inr m) \<Rightarrow>
          (case (key_num d, key_num m) of (Some a, Some b) \<Rightarrow> Some (a, b) | _ \<Rightarrow> None)
      | _ \<Rightarrow> None)"

text \<open>\<open>_distance_matrix(origin_lat, origin_lng, places)\<close>.\<close>

definition distance_matrix ::
  "(json list \<Rightarrow> exn + json list) \<Rightarrow> rat \<Rightarrow> rat \<Rightarrow> json \<Rightarrow> net \<Rightarrow> (exn + json list) \<times> net" where
  "distance_matrix sort_rest origin_lat origin_lng places n0 =
     (if \<not> truthy places then (Inr [], n0)
      else
        case destinations places of
          Inl e \<Rightarrow> (Inl e, n0)
        | Inr dests \<Rightarrow>
            let (out, n1) = send (DistanceMatrix origin_lat origin_lng dests) n0 in
            (bind_exn (json_of out) (\<lambda>(st, data).
             bind_exn (elements_of data) (\<lambda>els.
             bind_exn (pair_elements places 0 els) (rank sort_rest))), n1))"

section \<open>The endpoint (\<open>find_dumpyards\<close>)\<close>

record query =
  q_address :: "string option"
  q_lat :: "string option"
  q_lng :: "string option"
  q_city :: "string option"
  q_area :: "string option"

record response =
  status_code :: int
  content :: "(string \<times> json) list"

definition debug_json :: "debug \<Rightarrow> json" where
  "debug_json d = JObj [(''normalized'', JStr (normalized d)), (''attempts'', JArr (attempts d))]"

definition city_debug_json :: "city_debug \<Rightarrow> json" where
  "city_debug_json d = JObj [(''city'', dbg_city d), (''area'', dbg_area d), (''steps'', JArr (steps d))]"

text \<open>
  Lines 1722 to 1733: \<open>(lat, lng)\<close> after the input has been dispatched, and \<open>geo_dbg\<close>
  where it has been bound.
\<close>

definition resolve_input :: "query \<Rightarrow> net \<Rightarrow> (json \<times> json \<times> json option) \<times> net" where
  "resolve_input req n0 =
     (if truthy (param (q_address req)) then
        let ((lat, lng, d), n1) = address_to_latlng_with_debug (q_address req) n0 in
        ((lat, lng, Some (debug_json d)), n1)
      else if (truthy (param (q_city req)) \<or> truthy (param (q_area req)))
              \<and> \<not> (truthy (param (q_lat req)) \<and> truthy (param (q_lng req))) then
        let ((lat, lng, d), n1) = geocode_city_area (q_city req) (q_area req) n0 in
        ((lat, lng, Some (city_debug_json d)), n1)
      else ((param (q_lat req), param (q_lng req), None), n0))"

definition hint :: string where
  "hint = ''Ensure GOMAPS_PRO_API_KEY is set and valid. Try a fuller address like 'LJ University, Ahmedabad'.''"

text \<open>The response of lines 1741 to 1748; reading an unbound \<open>geo_dbg\<close> would raise.\<close>

definition error_response :: "query \<Rightarrow> json option \<Rightarrow> exn + response" where
  "error_response req geo_dbg =
     (let resp = [(''error'', JStr ''Please provide a valid address or lat/lng.''),
                  (''address_tried'', JStr (or_empty (q_address req))),
                  (''city'', JStr (or_empty (q_city req))),
                  (''area'', JStr (or_empty (q_area req))),
                  (''hint'', JStr hint)] in
      if truthy (param (q_address req)) \<or> truthy (param (q_city req)) \<or> truthy (param (q_area req))
      then (case geo_dbg of
              None \<Rightarrow> Inl UnboundLocalError
            | Some d \<Rightarrow> Inr \<lparr>status_code = 400, content = resp @ [(''geocode_debug'', d)]\<rparr>)
      else Inr \<lparr>status_code = 400, content = resp\<rparr>)"

text \<open>
  Lines 1722 to 1748: the origin as the geocoders or the query give it, or the reply
  that ends the request.
\<close>

definition resolve_origin :: "query \<Rightarrow> net \<Rightarrow> ((exn + response) + (json \<times> json)) \<times> net" where
  "resolve_origin req n0 =
     (let ((lat, lng, geo_dbg), n1) = resolve_input req n0 in
      if \<not> (truthy lat \<and> truthy lng) then
        let ((g_lat, g_lng), n2) = geolocate n1 in
        if truthy g_lat \<and> truthy g_lng then (Inr (g_lat, g_lng), n2)
        else (Inl (error_response req geo_dbg), n2)
      else (Inr (lat, lng), n1))"

text \<open>
  \<open>float(str(v).strip())\<close>.  \<open>float_of\<close> is Python's \<open>float\<close> on a string (\<open>None\<close> where
  it raises \<open>ValueError\<close>); a JSON number prints and reads back as itself, and the text of
  any other value is not a number.
\<close>

definition to_float :: "(string \<Rightarrow> rat option) \<Rightarrow> json \<Rightarrow> exn + rat" where
  "to_float float_of v =
     (case v of
        JStr s \<Rightarrow> (case float_of (strip s) of Some r \<Rightarrow> Inr r | None \<Rightarrow> Inl ValueError)
      | JNum r \<Rightarrow> Inr r
      | _ \<Rightarrow> Inl ValueError)"

definition origin_json :: "rat \<Rightarrow> rat \<Rightarrow> json" where
  "origin_json lat_f lng_f = JObj [(''lat'', JNum lat_f), (''lng'', JNum lng_f)]"

text \<open>
  \<open>find_dumpyards(request)\<close>: the reply, or the exception that leaves the view, and the
  network afterwards.  \<open>sort_rest\<close> and \<open>float_of\<close> stand for the interpreter, as above.
\<close>

definition find_dumpyards ::
  "(json list \<Rightarrow> exn + json list) \<Rightarrow> (string \<Rightarrow> rat option) \<Rightarrow> query \<Rightarrow> net
     \<Rightarrow> (exn + response) \<times> net" where
  "find_dumpyards sort_rest float_of req n0 =
     (let (r, n1) = resolve_origin req n0 in
      case r of
        Inl reply \<Rightarrow> (reply, n1)
      | Inr (lat, lng) \<Rightarrow>
          (case bind_exn (to_float float_of lat) (\<lambda>a.
                bind_exn (to_float float_of lng) (\<lambda>b. Inr (a, b))) of
             Inl e \<Rightarrow> (Inr \<lparr>status_code = 400, content = [(''error'', JStr ''Invalid coordinates.'')]\<rparr>, n1)
           | Inr (lat_f, lng_f) \<Rightarrow>
               let (c, n2) = places_nearby lat_f lng_f n1 in
               (case c of
                  Inl e \<Rightarrow> (Inl e, n2)
                | Inr candidates \<Rightarrow>
                    if \<not> truthy candidates then
                      (Inr \<lparr>status_code = 200,
                            content = [(''origin'', origin_json lat_f lng_f), (''places'', JArr [])]\<rparr>, n2)
                    else
                      let (rk, n3) = distance_matrix sort_rest lat_f lng_f candidates n2 in
                      (case rk of
                         Inl e \<Rightarrow> (Inl e, n3)
                       | Inr ranked \<Rightarrow>
                           (Inr \<lparr>status_code = 200,
                                 content = [(''origin'', origin_json lat_f lng_f),
                                            (''places'', JArr ranked),
                                            (''nearest'', if ranked \<noteq> [] then ranked ! 0 else JNull)]\<rparr>,
                            n3)))))"

section \<open>Notions used in the statements\<close>

text \<open>A token: non-empty and free of whitespace.\<close>

definition spaceless :: "string \<Rightarrow> bool" where
  "spaceless t \<longleftrightarrow> t \<noteq> [] \<and> (\<forall>c\<in>set t. \<not> isspace c)"

text \<open>
  The order of the ranking: \<open>a\<close> may stand before \<open>b\<close> when its duration is smaller,
  or equal with a distance that is not larger.
\<close>

definition ranks_before :: "json \<Rightarrow> json \<Rightarrow> bool" where
  "ranks_before a b =
     (case (entry_key a, entry_key b) of
        (Some (d1, m1), Some (d2, m2)) \<Rightarrow> d1 < d2 \<or> (d1 = d2 \<and> m1 \<le> m2)
      | _ \<Rightarrow> False)"

text \<open>A key read as a pair of numbers (0 where a component is not a number).\<close>

definition the_key :: "json \<times> json \<Rightarrow> rat \<times> rat" where
  "the_key k =
     (case key_num (fst k) of None \<Rightarrow> 0 | Some a \<Rightarrow> a,
      case key_num (snd k) of None \<Rightarrow> 0 | Some b \<Rightarrow> b)"

text \<open>
  What is assumed of the interpreter's sort where the keys do not settle its result:
  when it returns, it has rearranged the list.
\<close>

definition permuting :: "(json list \<Rightarrow> exn + json list) \<Rightarrow> bool" where
  "permuting sort_rest \<longleftrightarrow> (\<forall>xs ys. sort_rest xs = Inr ys \<longrightarrow> mset ys = mset xs)"

text \<open>A stand-in for it in the examples, none of which reaches it: it raises.\<close>

definition raising_sort :: "json list \<Rightarrow> exn + json list" where
  "raising_sort xs = Inl TypeError"

text \<open>Sample data: a candidate of the nearby search and an element of the distance matrix.\<close>

definition candidate :: "string \<Rightarrow> rat \<Rightarrow> rat \<Rightarrow> json" where
  "candidate name lat lng =
     JObj [(''name'', JStr name),
           (''geometry'', JObj [(''location'', JObj [(''lat'', JNum lat), (''lng'', JNum lng)])])]"

definition element_ok :: "rat \<Rightarrow> rat \<Rightarrow> json" where
  "element_ok seconds meters =
     JObj [(''status'', JStr ''OK''),
           (''distance'', JObj [(''text'', JStr ''m''), (''value'', JNum meters)]),
           (''duration'', JObj [(''text'', JStr ''s''), (''value'', JNum seconds)])]"

definition matrix_response :: "json list \<Rightarrow> http" where
  "matrix_response els =
     Response 200 (Some (JObj [(''status'', JStr ''OK''), (''rows'', JArr [JObj [(''elements'', JArr els)]])]))"

text \<open>The entry that \<open>_distance_matrix\<close> builds from such a candidate and element.\<close>

definition ranked_entry :: "string \<Rightarrow> rat \<Rightarrow> rat \<Rightarrow> rat \<Rightarrow> rat \<Rightarrow> json" where
  "ranked_entry name lat lng seconds meters =
     JObj [(''name'', JStr name), (''address'', JStr []), (''lat'', JNum lat), (''lng'', JNum lng),
           (''distance_text'', JStr ''m''), (''distance_value'', JNum meters),
           (''duration_text'', JStr ''s''), (''duration_value'', JNum seconds),
           (''place_id'', JNull), (''rating'', JNull)]"

text \<open>The same with a duration and a distance that the provider sends as text.\<close>

definition element_text :: "string \<Rightarrow> string \<Rightarrow> json" where
  "element_text seconds meters =
     JObj [(''status'', JStr ''OK''),
           (''distance'', JObj [(''text'', JStr ''m''), (''value'', JStr meters)]),
           (''duration'', JObj [(''text'', JStr ''s''), (''value'', JStr seconds)])]"

definition ranked_entry_text :: "string \<Rightarrow> rat \<Rightarrow> rat \<Rightarrow> string \<Rightarrow> string \<Rightarrow> json" where
  "ranked_entry_text name lat lng seconds meters =
     JObj [(''name'', JStr name), (''address'', JStr []), (''lat'', JNum lat), (''lng'', JNum lng),
           (''distance_text'', JStr ''m''), (''distance_value'', JStr meters),
           (''duration_text'', JStr ''s''), (''duration_value'', JStr seconds),
           (''place_id'', JNull), (''rating'', JNull)]"

text \<open>The \<open>"type"\<close> of a debug entry, and whether it carries an \<open>"error"\<close>.\<close>

definition entry_type :: "json \<Rightarrow> json option" where
  "entry_type e = (case e of JObj kvs \<Rightarrow> map_of kvs ''type'' | _ \<Rightarrow> None)"

definition has_error :: "json \<Rightarrow> bool" where
  "has_error e = (case e of JObj kvs \<Rightarrow> map_of kvs ''error'' \<noteq> None | _ \<Rightarrow> False)"

text \<open>
  Two ways in which address validation ends without a coordinate: the call, the decoding
  of the body or the reading of \<open>result.verdict\<close> raises, before any entry is written;
  or the answer is read through to \<open>result.geocode.location\<close> and a coordinate is missing.
\<close>

definition raises_before_entry :: "http \<Rightarrow> bool" where
  "raises_before_entry out =
     (case bind_exn (json_of out) (\<lambda>(st, j). address_complete j) of
        Inl e \<Rightarrow> True
      | Inr b \<Rightarrow> False)"

definition answers_without_geocode :: "http \<Rightarrow> bool" where
  "answers_without_geocode out =
     (case json_of out of
        Inl e \<Rightarrow> False
      | Inr (st, j) \<Rightarrow>
          (case (address_complete j, geocode_field j ''latitude'', geocode_field j ''longitude'') of
             (Inr b, Inr lat, Inr lng) \<Rightarrow> lat = JNull \<or> lng = JNull
           | _ \<Rightarrow> False))"



text \<open>
  A stand-in for Python's \<open>float\<close> in the examples: right on the strings of decimal
  digits, on which alone it is used.
\<close>

definition float_of_digits :: "string \<Rightarrow> rat option" where
  "float_of_digits s =
     (if s \<noteq> [] \<and> list_all is_digit s
      then Some (of_nat (foldl (\<lambda>a c. 10 * a + (of_char c - 48)) 0 s))
      else None)"

text \<open>Sample answers of the geocoding providers.\<close>

definition found :: "string \<Rightarrow> rat \<Rightarrow> rat \<Rightarrow> http" where
  "found key lat lng =
     Response 200 (Some (JObj [(''status'', JStr ''OK''), (key, JArr [candidate ''hit'' lat lng])]))"

definition nothing_found :: "string \<Rightarrow> http" where
  "nothing_found key =
     Response 200 (Some (JObj [(''status'', JStr ''ZERO_RESULTS''), (key, JArr [])]))"

section \<open>Basic facts about the network\<close>

lemma send_fst [simp]: "fst (send rq n) = script n (length (sent n))"
  by (simp add: send_def)

lemma send_sent [simp]: "sent (snd (send rq n)) = sent n @ [rq]"
  by (simp add: send_def)

lemma send_script [simp]: "script (snd (send rq n)) = script n"
  by (simp add: send_def)

section \<open>Whitespace normalisation\<close>

lemma isspace_blank: "isspace CHR '' ''"
  by (simp add: isspace_def)

lemma split_ws_token:
  "t \<in> set (split_ws s) \<Longrightarrow> t \<noteq> [] \<and> (\<forall>c\<in>set t. \<not> isspace c)"
proof (induction s rule: split_ws.induct)
  case 1
  then show ?case by simp
next
  case (2 c cs)
  show ?case
  proof (cases "isspace c")
    case True
    with 2 show ?thesis by simp
  next
    case False
    define w where "w = takeWhile (\<lambda>x. \<not> isspace x) (c # cs)"
    from 2(3) False consider "t = w"
      | "t \<in> set (split_ws (dropWhile (\<lambda>x. \<not> isspace x) cs))"
      by (auto simp: w_def)
    then show ?thesis
    proof cases
      case 1
      have "\<And>x. x \<in> set w \<Longrightarrow> \<not> isspace x"
        unfolding w_def by (rule set_takeWhileD[THEN conjunct2])
      moreover have "w \<noteq> []"
        using False by (simp add: w_def)
      ultimately show ?thesis unfolding 1 by blast
    next
      case 2
      with "2.IH"(2) False show ?thesis by blast
    qed
  qed
qed

lemma split_ws_spaceless: "\<forall>t\<in>set (split_ws s). spaceless t"
  using split_ws_token by (simp add: spaceless_def)

lemma contains_2sp_Cons:
  "contains ''  '' (c # cs) \<longleftrightarrow> (c = CHR '' '' \<and> cs \<noteq> [] \<and> hd cs = CHR '' '') \<or> contains ''  '' cs"
  by (cases cs) auto

lemma contains_2sp_append:
  "contains ''  '' (s @ r) \<longleftrightarrow>
     contains ''  '' s \<or> contains ''  '' r \<or> (s \<noteq> [] \<and> last s = CHR '' '' \<and> r \<noteq> [] \<and> hd r = CHR '' '')"
proof (induction s)
  case Nil
  then show ?case by simp
next
  case (Cons c cs)
  show ?case
    unfolding append_Cons contains_2sp_Cons Cons.IH
    by (cases cs) auto
qed

lemma spaceless_no_2sp: "spaceless t \<Longrightarrow> \<not> contains ''  '' t"
  unfolding spaceless_def
proof (induction t)
  case Nil
  then show ?case by simp
next
  case (Cons c cs)
  then show ?case
    by (cases cs) (auto simp: isspace_blank)
qed

lemma join_Cons2: "ts \<noteq> [] \<Longrightarrow> join sep (t # ts) = t @ sep @ join sep ts"
  by (cases ts) simp_all

lemma join_nonempty: "ts \<noteq> [] \<Longrightarrow> hd ts \<noteq> [] \<Longrightarrow> join sep ts \<noteq> []"
  by (cases "(sep, ts)" rule: join.cases) auto

lemma hd_join: "ts \<noteq> [] \<Longrightarrow> hd ts \<noteq> [] \<Longrightarrow> hd (join sep ts) = hd (hd ts)"
  by (cases "(sep, ts)" rule: join.cases) auto

lemma last_join:
  "ts \<noteq> [] \<Longrightarrow> \<forall>t\<in>set ts. t \<noteq> [] \<Longrightarrow> last (join sep ts) = last (last ts)"
proof (induction ts)
  case Nil
  then show ?case by simp
next
  case (Cons x ts)
  show ?case
  proof (cases "ts = []")
    case True
    then show ?thesis by simp
  next
    case False
    with Cons.prems have "join sep ts \<noteq> []"
      by (intro join_nonempty) (auto simp: hd_in_set)
    with False Cons show ?thesis by (simp add: join_Cons2)
  qed
qed

lemma join_no_2sp:
  "\<forall>t\<in>set ts. spaceless t \<Longrightarrow> \<not> contains ''  '' (join '' '' ts)"
proof (induction ts)
  case Nil
  then show ?case by simp
next
  case (Cons x ts)
  from Cons.prems have x: "spaceless x" by simp
  show ?case
  proof (cases "ts = []")
    case True
    with x show ?thesis by (simp add: spaceless_no_2sp)
  next
    case False
    let ?J = "join '' '' ts"
    from Cons have ih: "\<not> contains ''  '' ?J" by simp
    from False Cons.prems have "spaceless (hd ts)" by simp
    then have hdts: "hd ts \<noteq> []" "\<not> isspace (hd (hd ts))" by (auto simp: spaceless_def)
    with False have J: "?J \<noteq> []" "hd ?J = hd (hd ts)"
      by (simp_all add: join_nonempty hd_join)
    have "hd ?J \<noteq> CHR '' ''" using J hdts isspace_blank by metis
    with ih have sp: "\<not> contains ''  '' (CHR '' '' # ?J)"
      unfolding contains_2sp_Cons by blast
    from x have "last x \<in> set x" "\<forall>c\<in>set x. \<not> isspace c" by (simp_all add: spaceless_def)
    then have "last x \<noteq> CHR '' ''" using isspace_blank by metis
    with sp x have "\<not> contains ''  '' (x @ CHR '' '' # ?J)"
      unfolding contains_2sp_append[of x] by (simp add: spaceless_no_2sp del: contains.simps)
    then show ?thesis using False by (simp add: join_Cons2 del: contains.simps)
  qed
qed

lemma with_country_clean:
  assumes "\<not> contains ''  '' s" and "s \<noteq> [] \<longrightarrow> \<not> isspace (hd s) \<and> \<not> isspace (last s)"
  shows "\<not> contains ''  '' (with_country s)"
    and "with_country s \<noteq> [] \<longrightarrow> \<not> isspace (hd (with_country s)) \<and> \<not> isspace (last (with_country s))"
proof -
  have c: "\<not> contains ''  '' '', India''" by simp
  have "\<not> contains ''  '' (s @ '', India'')"
    unfolding contains_2sp_append[of s] using assms(1) c by (simp del: contains.simps)
  with assms(1) show "\<not> contains ''  '' (with_country s)"
    unfolding with_country_def by (simp del: contains.simps)
  show "with_country s \<noteq> [] \<longrightarrow> \<not> isspace (hd (with_country s)) \<and> \<not> isspace (last (with_country s))"
    using assms(2) by (simp add: with_country_def isspace_def)
qed

lemma normalize_address_clean:
  "\<not> contains ''  '' (normalize_address a)"
  "normalize_address a \<noteq> [] \<longrightarrow> \<not> isspace (hd (normalize_address a)) \<and> \<not> isspace (last (normalize_address a))"
proof -
  define ts where "ts = split_ws (strip (or_empty a))"
  have sp: "\<forall>t\<in>set ts. spaceless t" unfolding ts_def by (rule split_ws_spaceless)
  then have ne: "\<forall>t\<in>set ts. t \<noteq> []" by (simp add: spaceless_def)
  have 1: "\<not> contains ''  '' (join '' '' ts)" using sp by (rule join_no_2sp)
  have 2: "join '' '' ts \<noteq> [] \<longrightarrow> \<not> isspace (hd (join '' '' ts)) \<and> \<not> isspace (last (join '' '' ts))"
  proof (cases "ts = []")
    case True
    then show ?thesis by simp
  next
    case False
    then have "hd ts \<in> set ts" "last ts \<in> set ts" by simp_all
    with sp have "spaceless (hd ts)" "spaceless (last ts)" by blast+
    then have "\<not> isspace (hd (hd ts))" "\<not> isspace (last (last ts))" "hd ts \<noteq> []"
      by (auto simp: spaceless_def)
    then show ?thesis using False ne by (simp add: hd_join last_join)
  qed
  show "\<not> contains ''  '' (normalize_address a)"
    unfolding normalize_address_def ts_def[symmetric] using 1 2 by (rule with_country_clean)
  show "normalize_address a \<noteq> [] \<longrightarrow> \<not> isspace (hd (normalize_address a)) \<and> \<not> isspace (last (normalize_address a))"
    unfolding normalize_address_def ts_def[symmetric] using 1 2 by (rule with_country_clean)
qed

section \<open>The normalised address\<close>

lemma address_debug_normalized:
  "normalized (snd (snd (fst (address_to_latlng_with_debug a n)))) = normalize_address a"
  by (simp add: address_to_latlng_with_debug_def Let_def split: prod.splits option.splits)

lemma address_requests:
  "set (sent (snd (address_to_latlng_with_debug a n)))
     \<subseteq> set (sent n) \<union> {AddressValidation (normalize_address a), TextSearch (normalize_address a) None,
                         FindPlace (normalize_address a) None}"
  by (auto simp: address_to_latlng_with_debug_def Let_def send_def split: prod.splits option.splits)

text \<open>
  Claim C9.  For every address that is not empty, the normalised form that
  \<open>_address_to_latlng_with_debug\<close> records and sends to the geocoding providers has no
  two consecutive spaces and neither starts nor ends with whitespace, with or without
  the country suffix.
\<close>

theorem normalized_address_clean:
  assumes "or_empty address \<noteq> []"
  shows "normalized (snd (snd (fst (address_to_latlng_with_debug address n)))) = normalize_address address
     \<and> set (sent (snd (address_to_latlng_with_debug address n)))
         \<subseteq> set (sent n) \<union> {AddressValidation (normalize_address address),
              TextSearch (normalize_address address) None, FindPlace (normalize_address address) None}
     \<and> \<not> contains ''  '' (normalize_address address)
     \<and> (normalize_address address \<noteq> [] \<longrightarrow>
          \<not> isspace (hd (normalize_address address)) \<and> \<not> isspace (last (normalize_address address)))"
  using address_debug_normalized address_requests normalize_address_clean by blast

theorem normalized_address_clean_witness:
  "or_empty (Some ''  12  main st '') \<noteq> []
   \<and> normalize_address (Some ''  12  main st '') = ''12 main st, India''
   \<and> normalized (snd (snd (fst (address_to_latlng_with_debug (Some ''  12  main st '') (answers [])))))
       = ''12 main st, India''
   \<and> \<not> contains ''  '' (normalize_address (Some ''  12  main st ''))"
proof -
  have h: "or_empty (Some ''  12  main st '') \<noteq> []" by (simp add: or_empty_def)
  have e: "normalize_address (Some ''  12  main st '') = ''12 main st, India''" by code_simp
  from normalized_address_clean[OF h, of "answers []"] e h show ?thesis by simp
qed

section \<open>Sequencing\<close>

lemma bind_exn_Inr_iff: "bind_exn m f = Inr y \<longleftrightarrow> (\<exists>x. m = Inr x \<and> f x = Inr y)"
  by (cases m) (simp_all add: bind_exn_def)

lemma bind_exn_Inr [simp]: "bind_exn (Inr x) f = f x"
  by (simp add: bind_exn_def)

lemma bind_exn_Inl [simp]: "bind_exn (Inl e) f = Inl e"
  by (simp add: bind_exn_def)

section \<open>The ranking\<close>

lemma traverse_all2:
  "traverse f xs = Inr ys \<Longrightarrow> list_all2 (\<lambda>x y. f x = Inr y) xs ys"
proof (induction xs arbitrary: ys)
  case Nil
  then show ?case by simp
next
  case (Cons x xs)
  then obtain y ys' where "f x = Inr y" "traverse f xs = Inr ys'" "ys = y # ys'"
    by (auto simp: bind_exn_Inr_iff)
  with Cons.IH show ?case by simp
qed

lemma mset_insert_keyed: "mset (insert_keyed x ys) = add_mset x (mset ys)"
  by (induction ys) auto

lemma mset_stable_sort: "mset (stable_sort xs) = mset xs"
  by (induction xs) (simp_all add: stable_sort_def mset_insert_keyed)

lemma rank_cases:
  assumes "rank sort_rest paired = Inr ranked"
  obtains (few) "length paired \<le> 1" "ranked = paired"
  | (sorted) keys where "1 < length paired" "list_all2 (\<lambda>x k. sort_key_of x = Inr k) paired keys"
      "comparable keys" "ranked = map snd (stable_sort (zip keys paired))"
  | (rest) keys where "1 < length paired" "list_all2 (\<lambda>x k. sort_key_of x = Inr k) paired keys"
      "\<not> comparable keys" "sort_rest paired = Inr ranked"
proof -
  from assms obtain keys where k: "traverse sort_key_of paired = Inr keys"
    and r: "(if length paired \<le> 1 then Inr paired
             else if comparable keys then Inr (map snd (stable_sort (zip keys paired)))
             else sort_rest paired) = Inr ranked"
    by (auto simp: rank_def bind_exn_Inr_iff)
  from k have a: "list_all2 (\<lambda>x k. sort_key_of x = Inr k) paired keys" by (rule traverse_all2)
  show thesis
  proof (cases "length paired \<le> 1")
    case True
    with r have "ranked = paired" by simp
    with True show thesis by (rule few)
  next
    case False
    then have l: "1 < length paired" by simp
    show thesis
    proof (cases "comparable keys")
      case True
      with r False have "ranked = map snd (stable_sort (zip keys paired))" by simp
      with l a True show thesis by (rule sorted)
    next
      case c: False
      with r False have "sort_rest paired = Inr ranked" by simp
      with l a c show thesis by (rule rest)
    qed
  qed
qed

lemma snd_zip_keys:
  "list_all2 P paired keys \<Longrightarrow> map snd (zip keys paired) = paired"
  by (simp add: list_all2_lengthD)

lemma rank_mset:
  assumes "permuting sort_rest" and "rank sort_rest paired = Inr ranked"
  shows "mset ranked = mset paired"
  using assms(2)
proof (cases rule: rank_cases)
  case few
  then show ?thesis by simp
next
  case (sorted keys)
  have "mset ranked = image_mset snd (mset (stable_sort (zip keys paired)))"
    unfolding sorted(4) by simp
  also have "\<dots> = mset (map snd (zip keys paired))" by (simp add: mset_stable_sort)
  also have "\<dots> = mset paired" using sorted(2) by (simp only: snd_zip_keys)
  finally show ?thesis .
next
  case (rest keys)
  with assms(1) show ?thesis by (simp add: permuting_def)
qed


lemma key_num_scalar: "key_num x \<noteq> None \<Longrightarrow> scalar x"
  by (cases x) simp_all

lemma entry_key_of_sort_key:
  "sort_key_of x = Inr k \<Longrightarrow>
     entry_key x = (case (key_num (fst k), key_num (snd k)) of
                      (Some a, Some b) \<Rightarrow> Some (a, b) | _ \<Rightarrow> None)"
  by (auto simp: sort_key_of_def entry_key_def bind_exn_Inr_iff split: option.splits)

lemma entry_key_the_key:
  "sort_key_of x = Inr k \<Longrightarrow> entry_key x \<noteq> None \<Longrightarrow>
     entry_key x = Some (the_key k) \<and> key_num (fst k) \<noteq> None \<and> key_num (snd k) \<noteq> None"
  by (auto simp: entry_key_of_sort_key the_key_def split: option.splits)

lemma key_lt_numeric:
  assumes "key_num (fst k) \<noteq> None" "key_num (snd k) \<noteq> None"
    and "key_num (fst l) \<noteq> None" "key_num (snd l) \<noteq> None"
  shows "key_lt k l = Some (the_key k < the_key l)"
  using assms
  by (auto simp: key_lt_def py_eq_def py_lt_def the_key_def less_prod_def)

lemma insert_keyed_insort:
  assumes "key_num (fst (fst x)) \<noteq> None \<and> key_num (snd (fst x)) \<noteq> None"
    and "\<forall>y\<in>set ys. key_num (fst (fst y)) \<noteq> None \<and> key_num (snd (fst y)) \<noteq> None"
  shows "insert_keyed x ys = insort_key (\<lambda>z. the_key (fst z)) x ys"
  using assms(2)
proof (induction ys)
  case Nil
  then show ?case by simp
next
  case (Cons y ys)
  then have "key_lt (fst y) (fst x) = Some (the_key (fst y) < the_key (fst x))"
    using assms(1) by (intro key_lt_numeric) simp_all
  with Cons show ?case by (auto simp: not_less)
qed

lemma stable_sort_numeric:
  "\<forall>z\<in>set zs. key_num (fst (fst z)) \<noteq> None \<and> key_num (snd (fst z)) \<noteq> None \<Longrightarrow>
     stable_sort zs = sort_key (\<lambda>z. the_key (fst z)) zs"
proof (induction zs)
  case Nil
  then show ?case by (simp add: stable_sort_def)
next
  case (Cons z zs)
  then have ih: "stable_sort zs = sort_key (\<lambda>z. the_key (fst z)) zs" by simp
  have "stable_sort (z # zs) = insert_keyed z (stable_sort zs)" by (simp add: stable_sort_def)
  also have "\<dots> = insort_key (\<lambda>z. the_key (fst z)) z (sort_key (\<lambda>z. the_key (fst z)) zs)"
    unfolding ih using Cons.prems by (intro insert_keyed_insort) simp_all
  finally show ?case by simp
qed

lemma comparable_numeric:
  assumes "\<forall>k\<in>set ks. key_num (fst k) \<noteq> None \<and> key_num (snd k) \<noteq> None"
  shows "comparable ks"
  using assms by (auto simp: comparable_def list_all_iff key_num_scalar key_lt_numeric)

text \<open>The entries with their keys, when all values are numbers.\<close>

lemma keyed_numeric:
  assumes a: "list_all2 (\<lambda>x k. sort_key_of x = Inr k) paired keys"
    and n: "\<forall>x\<in>set paired. entry_key x \<noteq> None"
  shows "\<forall>z\<in>set (zip keys paired).
           sort_key_of (snd z) = Inr (fst z) \<and> entry_key (snd z) = Some (the_key (fst z))
           \<and> key_num (fst (fst z)) \<noteq> None \<and> key_num (snd (fst z)) \<noteq> None"
proof
  fix z assume z: "z \<in> set (zip keys paired)"
  then obtain i where i: "i < length paired" "i < length keys" "z = (keys ! i, paired ! i)"
    by (auto simp: set_zip)
  from list_all2_nthD[OF a i(1)] i(3) have s: "sort_key_of (snd z) = Inr (fst z)" by simp
  from i n have "entry_key (snd z) \<noteq> None" by simp
  with entry_key_the_key[OF s] s show
    "sort_key_of (snd z) = Inr (fst z) \<and> entry_key (snd z) = Some (the_key (fst z))
     \<and> key_num (fst (fst z)) \<noteq> None \<and> key_num (snd (fst z)) \<noteq> None"
    by simp
qed

lemma rank_numeric:
  assumes r: "rank sort_rest paired = Inr ranked" and l: "1 < length paired"
    and n: "\<forall>x\<in>set paired. entry_key x \<noteq> None"
  shows "\<exists>keys. list_all2 (\<lambda>x k. sort_key_of x = Inr k) paired keys
           \<and> ranked = map snd (sort_key (\<lambda>z. the_key (fst z)) (zip keys paired))"
  using r
proof (cases rule: rank_cases)
  case few
  with l show ?thesis by simp
next
  case (sorted keys)
  from keyed_numeric[OF sorted(2) n]
  have "stable_sort (zip keys paired) = sort_key (\<lambda>z. the_key (fst z)) (zip keys paired)"
    by (intro stable_sort_numeric) blast
  with sorted show ?thesis by auto
next
  case (rest keys)
  have "\<forall>k\<in>set keys. key_num (fst k) \<noteq> None \<and> key_num (snd k) \<noteq> None"
  proof
    fix k assume "k \<in> set keys"
    then obtain i where i: "i < length keys" "keys ! i = k" by (auto simp: in_set_conv_nth)
    from rest(2) have "length paired = length keys" by (rule list_all2_lengthD)
    with i have "(k, paired ! i) \<in> set (zip keys paired)" by (auto simp: set_zip)
    with keyed_numeric[OF rest(2) n]
    show "key_num (fst k) \<noteq> None \<and> key_num (snd k) \<noteq> None" by fastforce
  qed
  then have "comparable keys" by (rule comparable_numeric)
  with rest(3) show ?thesis by simp
qed

lemma ranks_before_keys:
  "entry_key a = Some ka \<Longrightarrow> entry_key b = Some kb \<Longrightarrow> ranks_before a b \<longleftrightarrow> ka \<le> kb"
  by (auto simp: ranks_before_def less_eq_prod_def)

lemma rank_sorted:
  assumes r: "rank sort_rest paired = Inr ranked" and n: "\<forall>x\<in>set paired. entry_key x \<noteq> None"
  shows "sorted_wrt ranks_before ranked"
proof (cases "1 < length paired")
  case False
  then have "length paired \<le> 1" by simp
  with r have "ranked = paired" by (cases rule: rank_cases) simp_all
  moreover from False have "paired = [] \<or> (\<exists>x. paired = [x])" by (cases paired) auto
  ultimately show ?thesis by auto
next
  case True
  from rank_numeric[OF r True n] obtain keys where
    a: "list_all2 (\<lambda>x k. sort_key_of x = Inr k) paired keys"
    and e: "ranked = map snd (sort_key (\<lambda>z. the_key (fst z)) (zip keys paired))"
    by blast
  let ?S = "sort_key (\<lambda>z. the_key (fst z)) (zip keys paired)"
  have "sorted (map (\<lambda>z. the_key (fst z)) ?S)" by (rule sorted_sort_key)
  then have s: "sorted_wrt (\<lambda>a b. the_key (fst a) \<le> the_key (fst b)) ?S"
    by (simp add: sorted_wrt_map)
  have k: "\<forall>z\<in>set ?S. entry_key (snd z) = Some (the_key (fst z))"
    using keyed_numeric[OF a n] by simp
  have "sorted_wrt (\<lambda>a b. ranks_before (snd a) (snd b)) ?S"
    using s by (rule sorted_wrt_mono_rel[rotated]) (simp add: k ranks_before_keys)
  then show ?thesis unfolding e by (simp add: sorted_wrt_map)
qed

lemma rank_stable:
  assumes r: "rank sort_rest paired = Inr ranked" and n: "\<forall>x\<in>set paired. entry_key x \<noteq> None"
  shows "filter (\<lambda>x. entry_key x = k) ranked = filter (\<lambda>x. entry_key x = k) paired"
proof (cases "1 < length paired")
  case False
  then have "length paired \<le> 1" by simp
  with r have "ranked = paired" by (cases rule: rank_cases) simp_all
  then show ?thesis by simp
next
  case True
  from rank_numeric[OF r True n] obtain keys where
    a: "list_all2 (\<lambda>x k. sort_key_of x = Inr k) paired keys"
    and e: "ranked = map snd (sort_key (\<lambda>z. the_key (fst z)) (zip keys paired))"
    by blast
  let ?zs = "zip keys paired"
  let ?S = "sort_key (\<lambda>z. the_key (fst z)) ?zs"
  have kz: "\<forall>z\<in>set ?zs. entry_key (snd z) = Some (the_key (fst z))"
    using keyed_numeric[OF a n] by simp
  have p: "map snd ?zs = paired" using a by (rule snd_zip_keys)
  show ?thesis
  proof (cases k)
    case None
    have "set ranked = set paired" unfolding e using p by (metis set_map set_sort)
    with n None show ?thesis by (simp add: filter_empty_conv)
  next
    case (Some kk)
    have "filter (\<lambda>x. entry_key x = k) ranked = map snd (filter (\<lambda>z. entry_key (snd z) = k) ?S)"
      unfolding e by (simp add: filter_map comp_def)
    also have "filter (\<lambda>z. entry_key (snd z) = k) ?S = filter (\<lambda>z. the_key (fst z) = kk) ?S"
      by (rule filter_cong) (auto simp: kz Some)
    also have "\<dots> = filter (\<lambda>z. the_key (fst z) = kk) ?zs" by (rule sort_key_stable)
    also have "\<dots> = filter (\<lambda>z. entry_key (snd z) = k) ?zs"
      by (rule filter_cong) (auto simp: kz Some)
    also have "map snd \<dots> = filter (\<lambda>x. entry_key x = k) (map snd ?zs)"
      by (simp add: filter_map comp_def)
    finally show ?thesis unfolding p .
  qed
qed

lemma pair_elements_included:
  "pair_elements places k els = Inr paired \<Longrightarrow>
     map Inr paired
       = map (\<lambda>(i, el). make_entry places i el)
           (filter (\<lambda>(i, el). status_ok el = Inr True) (enumerate k els))"
proof (induction els arbitrary: k paired)
  case Nil
  then show ?case by simp
next
  case (Cons el els)
  from Cons.prems obtain ok where ok: "status_ok el = Inr ok"
    by (auto simp: bind_exn_Inr_iff)
  show ?case
  proof (cases ok)
    case True
    with Cons.prems ok obtain e rest where e: "make_entry places k el = Inr e"
      and rest: "pair_elements places (Suc k) els = Inr rest" and p: "paired = e # rest"
      by (auto simp: bind_exn_Inr_iff)
    from Cons.IH[OF rest] show ?thesis using ok True e p by simp
  next
    case False
    with Cons.prems ok have "pair_elements places (Suc k) els = Inr paired" by simp
    from Cons.IH[OF this] show ?thesis using ok False by simp
  qed
qed


lemma distance_matrix_cases:
  assumes "fst (distance_matrix sort_rest olat olng places n) = Inr ranked"
  shows "(\<not> truthy places \<and> ranked = []) \<or>
         (truthy places \<and> (\<exists>st data els paired.
            script n (length (sent n)) = Response st (Some data) \<and> elements_of data = Inr els
            \<and> pair_elements places 0 els = Inr paired \<and> rank sort_rest paired = Inr ranked))"
proof (cases "truthy places")
  case False
  with assms show ?thesis by (simp add: distance_matrix_def)
next
  case True
  with assms obtain dests where d: "destinations places = Inr dests"
    by (auto simp: distance_matrix_def split: sum.splits)
  with assms True have
    "bind_exn (json_of (script n (length (sent n)))) (\<lambda>(st, data).
       bind_exn (elements_of data) (\<lambda>els. bind_exn (pair_elements places 0 els) (rank sort_rest)))
     = Inr ranked"
    by (simp add: distance_matrix_def send_def)
  then obtain st data els paired where "json_of (script n (length (sent n))) = Inr (st, data)"
    "elements_of data = Inr els" "pair_elements places 0 els = Inr paired"
    "rank sort_rest paired = Inr ranked"
    by (auto simp: bind_exn_Inr_iff)
  moreover from this(1) have "script n (length (sent n)) = Response st (Some data)"
    by (cases "script n (length (sent n))" rule: json_of.cases) auto
  ultimately show ?thesis using True by blast
qed

lemma included_count:
  "length (filter (\<lambda>(i, el). P el) (enumerate k els)) = length (filter P els)"
  by (induction els arbitrary: k) auto


lemma example_tie:
  "fst (distance_matrix raising_sort 23 72
      (JArr [candidate ''far'' 1 1, candidate ''near'' 2 2])
      (answers [matrix_response [element_ok 400 1000, element_ok 400 900]]))
   = Inr [ranked_entry ''near'' 2 2 400 900, ranked_entry ''far'' 1 1 400 1000]"
  by code_simp

lemma example_statuses:
  "fst (distance_matrix raising_sort 23 72
      (JArr [candidate ''a'' 1 1, candidate ''b'' 2 2, candidate ''c'' 3 3])
      (answers [matrix_response [element_ok 600 5000, element_ok 300 2000,
                                 JObj [(''status'', JStr ''ZERO_RESULTS'')]]]))
   = Inr [ranked_entry ''b'' 2 2 300 2000, ranked_entry ''a'' 1 1 600 5000]"
  by code_simp

lemma example_text:
  "fst (distance_matrix raising_sort 23 72
      (JArr [candidate ''far'' 1 1, candidate ''near'' 2 2])
      (answers [matrix_response [element_text ''1000'' ''9000'', element_text ''300'' ''2000'']]))
   = Inr [ranked_entry_text ''far'' 1 1 ''1000'' ''9000'', ranked_entry_text ''near'' 2 2 ''300'' ''2000'']"
  by code_simp

lemma permuting_raising_sort: "permuting raising_sort"
  by (simp add: permuting_def raising_sort_def)

text \<open>
  Claim C3, as amended.  Whatever the origin, the candidates and the provider's answer,
  when the duration and distance values of the entries that \<open>_distance_matrix\<close> returns
  are numbers, the list is in ascending order of duration, with ties broken by ascending
  distance; it is a stable rearrangement of the paired entries; and two candidates with
  durations of 400 seconds and distances of 1000 and 900 meters come back with the 900
  meter candidate first.
\<close>

theorem ranked_by_duration_then_distance:
  assumes "permuting sort_rest"
    and "fst (distance_matrix sort_rest origin_lat origin_lng places n) = Inr ranked"
    and "list_all (\<lambda>x. entry_key x \<noteq> None) ranked"
  shows "sorted_wrt ranks_before ranked
     \<and> (\<forall>st data els paired.
           truthy places \<and> script n (length (sent n)) = Response st (Some data)
           \<and> elements_of data = Inr els \<and> pair_elements places 0 els = Inr paired
           \<longrightarrow> mset ranked = mset paired
               \<and> (\<forall>k. filter (\<lambda>x. entry_key x = k) ranked = filter (\<lambda>x. entry_key x = k) paired))
     \<and> fst (distance_matrix raising_sort 23 72
              (JArr [candidate ''far'' 1 1, candidate ''near'' 2 2])
              (answers [matrix_response [element_ok 400 1000, element_ok 400 900]]))
         = Inr [ranked_entry ''near'' 2 2 400 900, ranked_entry ''far'' 1 1 400 1000]"
proof -
  have num: "\<forall>x\<in>set paired. entry_key x \<noteq> None" if "rank sort_rest paired = Inr ranked" for paired
  proof -
    from rank_mset[OF assms(1) that] have "set paired = set ranked" by (metis set_mset_mset)
    with assms(3) show ?thesis by (simp add: list_all_iff)
  qed
  have 1: "sorted_wrt ranks_before ranked"
  proof -
    from distance_matrix_cases[OF assms(2)] consider "ranked = []"
      | paired where "rank sort_rest paired = Inr ranked" by blast
    then show ?thesis
    proof cases
      case 1
      then show ?thesis by simp
    next
      case (2 paired)
      from this num[OF this] show ?thesis by (rule rank_sorted)
    qed
  qed
  have 2: "mset ranked = mset paired
           \<and> (\<forall>k. filter (\<lambda>x. entry_key x = k) ranked = filter (\<lambda>x. entry_key x = k) paired)"
    if h: "truthy places \<and> script n (length (sent n)) = Response st (Some data)
           \<and> elements_of data = Inr els \<and> pair_elements places 0 els = Inr paired"
    for st data els paired
  proof -
    from distance_matrix_cases[OF assms(2)] h have r: "rank sort_rest paired = Inr ranked" by auto
    from rank_mset[OF assms(1) r] rank_stable[OF r num[OF r]] show ?thesis by blast
  qed
  from 1 2 example_tie show ?thesis by blast
qed

theorem ranked_by_duration_then_distance_witness:
  "permuting raising_sort
   \<and> fst (distance_matrix raising_sort 23 72
      (JArr [candidate ''a'' 1 1, candidate ''b'' 2 2, candidate ''c'' 3 3])
      (answers [matrix_response [element_ok 600 5000, element_ok 300 2000, element_ok 300 1000]]))
     = Inr [ranked_entry ''c'' 3 3 300 1000, ranked_entry ''b'' 2 2 300 2000, ranked_entry ''a'' 1 1 600 5000]
   \<and> list_all (\<lambda>x. entry_key x \<noteq> None)
       [ranked_entry ''c'' 3 3 300 1000, ranked_entry ''b'' 2 2 300 2000, ranked_entry ''a'' 1 1 600 5000]
   \<and> sorted_wrt ranks_before
       [ranked_entry ''c'' 3 3 300 1000, ranked_entry ''b'' 2 2 300 2000, ranked_entry ''a'' 1 1 600 5000]"
proof -
  have h: "fst (distance_matrix raising_sort 23 72
      (JArr [candidate ''a'' 1 1, candidate ''b'' 2 2, candidate ''c'' 3 3])
      (answers [matrix_response [element_ok 600 5000, element_ok 300 2000, element_ok 300 1000]]))
     = Inr [ranked_entry ''c'' 3 3 300 1000, ranked_entry ''b'' 2 2 300 2000, ranked_entry ''a'' 1 1 600 5000]"
    by code_simp
  have n: "list_all (\<lambda>x. entry_key x \<noteq> None)
       [ranked_entry ''c'' 3 3 300 1000, ranked_entry ''b'' 2 2 300 2000, ranked_entry ''a'' 1 1 600 5000]"
    by code_simp
  have s: "sorted_wrt ranks_before
       [ranked_entry ''c'' 3 3 300 1000, ranked_entry ''b'' 2 2 300 2000, ranked_entry ''a'' 1 1 600 5000]"
    using ranked_by_duration_then_distance[OF permuting_raising_sort h n] by (rule conjunct1)
  show ?thesis by (intro conjI permuting_raising_sort h n s)
qed

text \<open>
  Where claim C3 fails as written: the sort compares the values as the provider sends
  them, so durations sent as the texts \<open>"1000"\<close> and \<open>"300"\<close> come back in the order of
  the texts, the longer duration first.
\<close>

theorem text_order_counterexample:
  "fst (distance_matrix raising_sort 23 72
      (JArr [candidate ''far'' 1 1, candidate ''near'' 2 2])
      (answers [matrix_response [element_text ''1000'' ''9000'', element_text ''300'' ''2000'']]))
   = Inr [ranked_entry_text ''far'' 1 1 ''1000'' ''9000'', ranked_entry_text ''near'' 2 2 ''300'' ''2000'']
   \<and> \<not> sorted_wrt ranks_before
       [ranked_entry_text ''far'' 1 1 ''1000'' ''9000'', ranked_entry_text ''near'' 2 2 ''300'' ''2000'']"
  by code_simp

text \<open>
  Claim C4.  Whatever the origin, the candidates and the provider's answer, the entries
  that \<open>_distance_matrix\<close> returns are those of the elements whose status is \<open>"OK"\<close>,
  each built from the candidate at the element's own position (the sort only rearranges
  them); statuses
  \<open>["OK", "OK", "ZERO_RESULTS"]\<close> with durations \<open>[600, 300, _]\<close> give exactly two
  entries, in the order 300, 600.
\<close>

theorem only_ok_elements_paired_by_index:
  assumes "permuting sort_rest"
    and "fst (distance_matrix sort_rest origin_lat origin_lng places n) = Inr ranked"
    and "truthy places"
    and "script n (length (sent n)) = Response st (Some data)"
    and "elements_of data = Inr els"
  shows "mset (map Inr ranked)
           = mset (map (\<lambda>(i, el). make_entry places i el)
                    (filter (\<lambda>(i, el). status_ok el = Inr True) (enumerate 0 els)))
     \<and> length ranked = length (filter (\<lambda>el. status_ok el = Inr True) els)
     \<and> fst (distance_matrix raising_sort 23 72
              (JArr [candidate ''a'' 1 1, candidate ''b'' 2 2, candidate ''c'' 3 3])
              (answers [matrix_response [element_ok 600 5000, element_ok 300 2000,
                                         JObj [(''status'', JStr ''ZERO_RESULTS'')]]]))
         = Inr [ranked_entry ''b'' 2 2 300 2000, ranked_entry ''a'' 1 1 600 5000]"
proof -
  from distance_matrix_cases[OF assms(2)] assms(3-5) obtain paired
    where p: "pair_elements places 0 els = Inr paired" and r: "rank sort_rest paired = Inr ranked"
    by auto
  note ms = rank_mset[OF assms(1) r]
  let ?inc = "filter (\<lambda>(i, el). status_ok el = Inr True) (enumerate 0 els)"
  have m: "map Inr paired = map (\<lambda>(i, el). make_entry places i el) ?inc"
    using p by (rule pair_elements_included)
  have 1: "mset (map Inr ranked) = mset (map (\<lambda>(i, el). make_entry places i el) ?inc)"
    unfolding m[symmetric] using ms by simp
  have "length ranked = length paired" using ms by (metis size_mset)
  also have "\<dots> = length ?inc" using m by (metis length_map)
  also have "\<dots> = length (filter (\<lambda>el. status_ok el = Inr True) els)"
    by (rule included_count)
  finally have 2: "length ranked = length (filter (\<lambda>el. status_ok el = Inr True) els)" .
  from 1 2 example_statuses show ?thesis by blast
qed

theorem only_ok_elements_paired_by_index_witness:
  "permuting raising_sort
   \<and> fst (distance_matrix raising_sort 23 72
      (JArr [candidate ''a'' 1 1, candidate ''b'' 2 2])
      (answers [matrix_response [JObj [(''status'', JStr ''NOT_FOUND'')], element_ok 300 2000]]))
     = Inr [ranked_entry ''b'' 2 2 300 2000]
   \<and> mset (map Inr [ranked_entry ''b'' 2 2 300 2000])
       = mset (map (\<lambda>(i, el). make_entry (JArr [candidate ''a'' 1 1, candidate ''b'' 2 2]) i el)
            (filter (\<lambda>(i, el). status_ok el = Inr True)
               (enumerate 0 [JObj [(''status'', JStr ''NOT_FOUND'')], element_ok 300 2000])))"
proof -
  let ?places = "JArr [candidate ''a'' 1 1, candidate ''b'' 2 2]"
  let ?els = "[JObj [(''status'', JStr ''NOT_FOUND'')], element_ok 300 2000]"
  let ?n = "answers [matrix_response ?els]"
  have h1: "fst (distance_matrix raising_sort 23 72 ?places ?n) = Inr [ranked_entry ''b'' 2 2 300 2000]"
    by code_simp
  have h2: "truthy ?places" by simp
  have h3: "script ?n (length (sent ?n))
      = Response 200 (Some (JObj [(''status'', JStr ''OK''), (''rows'', JArr [JObj [(''elements'', JArr ?els)]])]))"
    by (simp add: answers_def matrix_response_def)
  have h4: "elements_of (JObj [(''status'', JStr ''OK''), (''rows'', JArr [JObj [(''elements'', JArr ?els)]])])
      = Inr ?els"
    by (simp add: elements_of_def py_or_def)
  have c: "mset (map Inr [ranked_entry ''b'' 2 2 300 2000])
       = mset (map (\<lambda>(i, el). make_entry ?places i el)
            (filter (\<lambda>(i, el). status_ok el = Inr True) (enumerate 0 ?els)))"
    using only_ok_elements_paired_by_index[OF permuting_raising_sort h1 h2 h3 h4] by (rule conjunct1)
  show ?thesis by (intro conjI permuting_raising_sort h1 c)
qed

section \<open>The address cascade\<close>

lemma first_location_dict: "first_location j key = Inr x \<Longrightarrow> \<exists>kvs. j = JObj kvs"
  by (cases j) (simp_all add: first_location_def)

lemma api_fields_dict:
  "api_fields (JObj kvs) =
     Inr [(''api_status'', case map_of kvs ''status'' of Some v \<Rightarrow> v | None \<Rightarrow> JNull),
          (''error_message'', case map_of kvs ''error_message'' of Some v \<Rightarrow> v | None \<Rightarrow> JNull)]"
  by (simp add: api_fields_def)

lemma places_attempt_found:
  assumes "out = Response st (Some j)" and "first_location j key = Inr (Some loc)"
  shows "\<exists>fs. places_attempt typ key q qe out
           = ([JObj ([(''type'', JStr typ)] @ q @ [(''status'', JNum (of_int st))] @ fs)], Some loc)
         \<and> map_of fs ''error'' = None \<and> map_of fs ''type'' = None"
proof -
  from first_location_dict[OF assms(2)] obtain kvs where j: "j = JObj kvs" by blast
  show ?thesis
    unfolding places_attempt_def assms(1) j
    using assms(2)[unfolded j] by (simp add: api_fields_dict)
qed

lemma validation_attempt_raises:
  assumes "raises_before_entry out"
  shows "\<exists>e. validation_attempt typ body_status out = ([error_entry typ [] e], None)"
proof (cases "json_of out")
  case (Inl e)
  then show ?thesis by (auto simp: validation_attempt_def)
next
  case (Inr p)
  obtain st j where p: "p = (st, j)" by (cases p)
  from assms Inr p obtain e where "address_complete j = Inl e"
    by (auto simp: raises_before_entry_def split: sum.splits)
  with Inr p show ?thesis by (auto simp: validation_attempt_def body_status_def)
qed

lemma validation_attempt_no_geocode:
  assumes "answers_without_geocode out"
  shows "\<exists>st b. validation_attempt typ body_status out
           = ([JObj [(''type'', JStr typ), (''status'', JNum (of_int st)), (''body_status'', b)]], None)"
proof -
  from assms obtain st j where o: "json_of out = Inr (st, j)"
    by (auto simp: answers_without_geocode_def split: sum.splits)
  with assms obtain b lat lng where "address_complete j = Inr b"
    "geocode_field j ''latitude'' = Inr lat" "geocode_field j ''longitude'' = Inr lng"
    "lat = JNull \<or> lng = JNull"
    by (auto simp: answers_without_geocode_def split: sum.splits)
  with o show ?thesis by (auto simp: validation_attempt_def body_status_def)
qed


text \<open>
  Claim C5, as amended.  When address validation ends without a coordinate, either by
  raising before its entry is written or by answering without one, and text search
  answers with a first result that has a location, \<open>_address_to_latlng_with_debug\<close>
  returns that location, raises nothing, and leaves a trail of exactly two entries, of
  address validation and of text search; the first carries an \<open>"error"\<close> exactly when
  address validation raised, the second carries none.
\<close>

theorem second_provider_takes_over:
  assumes "normalize_address address \<noteq> []"
    and "raises_before_entry (script n (length (sent n)))
         \<or> answers_without_geocode (script n (length (sent n)))"
    and "script n (Suc (length (sent n))) = Response st (Some j)"
    and "first_location j ''results'' = Inr (Some (lat, lng))"
  shows "\<exists>e1 e2.
     fst (address_to_latlng_with_debug address n)
       = (lat, lng, \<lparr>normalized = normalize_address address, attempts = [e1, e2]\<rparr>)
     \<and> entry_type e1 = Some (JStr ''addressvalidation'')
     \<and> entry_type e2 = Some (JStr ''textsearch'')
     \<and> (has_error e1 \<longleftrightarrow> raises_before_entry (script n (length (sent n))))
     \<and> \<not> has_error e2"
proof -
  let ?out1 = "script n (length (sent n))"
  have "\<exists>e1. validation_attempt ''addressvalidation'' body_status ?out1 = ([e1], None)
          \<and> entry_type e1 = Some (JStr ''addressvalidation'')
          \<and> (has_error e1 \<longleftrightarrow> raises_before_entry ?out1)"
  proof (cases "raises_before_entry ?out1")
    case True
    from validation_attempt_raises[OF True] obtain e
      where "validation_attempt ''addressvalidation'' body_status ?out1
               = ([error_entry ''addressvalidation'' [] e], None)"
      by blast
    with True show ?thesis by (simp add: error_entry_def entry_type_def has_error_def)
  next
    case False
    with assms(2) have a: "answers_without_geocode ?out1" by simp
    from validation_attempt_no_geocode[OF a] obtain st1 b
      where "validation_attempt ''addressvalidation'' body_status ?out1
               = ([JObj [(''type'', JStr ''addressvalidation''), (''status'', JNum (of_int st1)),
                         (''body_status'', b)]], None)"
      by blast
    with False show ?thesis by (simp add: entry_type_def has_error_def)
  qed
  then obtain e1 where v: "validation_attempt ''addressvalidation'' body_status ?out1 = ([e1], None)"
    and e1: "entry_type e1 = Some (JStr ''addressvalidation'')"
      "has_error e1 \<longleftrightarrow> raises_before_entry ?out1"
    by blast
  from places_attempt_found[OF assms(3) assms(4), of "''textsearch''" "[]" "[]"] obtain fs
    where p: "places_attempt ''textsearch'' ''results'' [] [] (script n (Suc (length (sent n))))
                = ([JObj ([(''type'', JStr ''textsearch'')] @ [] @ [(''status'', JNum (of_int st))] @ fs)],
                   Some (lat, lng))"
      and fs: "map_of fs ''error'' = None"
    by blast
  let ?e2 = "JObj ([(''type'', JStr ''textsearch'')] @ [] @ [(''status'', JNum (of_int st))] @ fs)"
  have r: "fst (address_to_latlng_with_debug address n)
       = (lat, lng, \<lparr>normalized = normalize_address address, attempts = [e1, ?e2]\<rparr>)"
    using assms(1) v p by (simp add: address_to_latlng_with_debug_def send_def Let_def)
  have e2: "entry_type ?e2 = Some (JStr ''textsearch'')" "\<not> has_error ?e2"
    using fs by (simp_all add: entry_type_def has_error_def)
  from r e1 e2 show ?thesis by blast
qed

theorem second_provider_takes_over_witness:
  "normalize_address (Some ''LJ University'') \<noteq> []
   \<and> raises_before_entry (Failure ''timed out'')
   \<and> fst (fst (address_to_latlng_with_debug (Some ''LJ University'')
                 (answers [Failure ''timed out'', found ''results'' 23 72]))) = JNum 23
   \<and> length (attempts (snd (snd (fst (address_to_latlng_with_debug (Some ''LJ University'')
                 (answers [Failure ''timed out'', found ''results'' 23 72])))))) = 2"
proof -
  let ?n = "answers [Failure ''timed out'', found ''results'' 23 72]"
  let ?j = "JObj [(''status'', JStr ''OK''), (''results'', JArr [candidate ''hit'' 23 72])]"
  have h1: "normalize_address (Some ''LJ University'') \<noteq> []" by code_simp
  have r: "raises_before_entry (Failure ''timed out'')" by (simp add: raises_before_entry_def)
  have o: "script ?n (length (sent ?n)) = Failure ''timed out''" by (simp add: answers_def)
  have h2: "raises_before_entry (script ?n (length (sent ?n)))
            \<or> answers_without_geocode (script ?n (length (sent ?n)))"
    unfolding o using r by (rule disjI1)
  have h3: "script ?n (Suc (length (sent ?n))) = Response 200 (Some ?j)"
    by (simp add: answers_def found_def)
  have h4: "first_location ?j ''results'' = Inr (Some (JNum 23, JNum 72))"
    by (simp add: first_location_def py_or_def candidate_def)
  from second_provider_takes_over[OF h1 h2 h3 h4] obtain e1 e2 where
    "fst (address_to_latlng_with_debug (Some ''LJ University'') ?n)
       = (JNum 23, JNum 72, \<lparr>normalized = normalize_address (Some ''LJ University''), attempts = [e1, e2]\<rparr>)"
    by blast
  then have "fst (fst (address_to_latlng_with_debug (Some ''LJ University'') ?n)) = JNum 23"
    "length (attempts (snd (snd (fst (address_to_latlng_with_debug (Some ''LJ University'') ?n))))) = 2"
    by simp_all
  with h1 r show ?thesis by blast
qed

text \<open>
  Where claim C5 fails as written.  An answer of address validation without a geocode
  leaves an entry with no mark of failure: it has the fields of the entry of a success.
  And an answer whose \<open>geocode\<close> is \<open>null\<close> leaves two entries of its own, so that the
  trail has three.
\<close>

theorem first_entry_counterexample:
  "fst (address_to_latlng_with_debug (Some ''LJ University'')
          (answers [Response 200 (Some (JObj [(''result'', JObj [])])), found ''results'' 23 72]))
     = (JNum 23, JNum 72,
        \<lparr>normalized = ''LJ University, India'',
         attempts = [JObj [(''type'', JStr ''addressvalidation''), (''status'', JNum 200),
                           (''body_status'', JNull)],
                     JObj [(''type'', JStr ''textsearch''), (''status'', JNum 200),
                           (''api_status'', JStr ''OK''), (''error_message'', JNull)]]\<rparr>)
   \<and> fst (address_to_latlng_with_debug (Some ''LJ University'')
          (answers [Response 200 (Some (JObj [(''result'', JObj [(''geocode'', JNull)])])),
                    found ''results'' 23 72]))
     = (JNum 23, JNum 72,
        \<lparr>normalized = ''LJ University, India'',
         attempts = [JObj [(''type'', JStr ''addressvalidation''), (''status'', JNum 200),
                           (''body_status'', JNull)],
                     JObj [(''type'', JStr ''addressvalidation''), (''error'', JStr ''AttributeError'')],
                     JObj [(''type'', JStr ''textsearch''), (''status'', JNum 200),
                           (''api_status'', JStr ''OK''), (''error_message'', JNull)]]\<rparr>)"
  by code_simp

section \<open>The city and area cascade\<close>









section \<open>The jammed area name\<close>

lemma find_place_loop_extends:
  "\<exists>more. sent (snd (snd (find_place_loop avs c n))) = sent n @ more"
proof (induction avs arbitrary: n)
  case Nil
  then show ?case by simp
next
  case (Cons av avs)
  let ?n1 = "n\<lparr>sent := sent n @ [FindPlace av (Some c)]\<rparr>"
  from Cons.IH[of ?n1] obtain more where
    "sent (snd (snd (find_place_loop avs c ?n1))) = sent n @ FindPlace av (Some c) # more"
    by auto
  then show ?case
    by (auto simp: send_def Let_def split: prod.splits option.splits)
qed

lemma find_place_loop_first:
  "\<exists>more. sent (snd (snd (find_place_loop (av # avs) c n))) = sent n @ FindPlace av (Some c) # more"
proof -
  let ?n1 = "n\<lparr>sent := sent n @ [FindPlace av (Some c)]\<rparr>"
  from find_place_loop_extends[of avs c ?n1] obtain more where
    "sent (snd (snd (find_place_loop avs c ?n1))) = sent n @ FindPlace av (Some c) # more"
    by auto
  then show ?thesis
    by (auto simp: send_def Let_def split: prod.splits option.splits)
qed

lemma refine_area_first_request:
  assumes "area_variants area = av # avs"
  shows "\<exists>more. sent (snd (snd (refine_area area city c n))) = sent n @ FindPlace av (Some c) # more"
proof -
  obtain t1 r1 n1 where l: "find_place_loop (av # avs) c n = (t1, r1, n1)"
    by (metis prod.collapse)
  from find_place_loop_first[of av avs c n] l obtain more where
    m: "sent n1 = sent n @ FindPlace av (Some c) # more" by auto
  show ?thesis
    unfolding refine_area_def assms l
    using m by (auto simp: send_def Let_def split: prod.splits option.splits)
qed


lemma normalize_ljuniversity: "normalize_place_text ''ljuniversity'' = ''LJ University''"
  by code_simp

lemma normalize_ahmedabad: "normalize_place_text ''Ahmedabad'' = ''Ahmedabad''"
  by code_simp

lemma variants_lj_university: "area_variants ''LJ University'' = [''LJ University'']"
  by code_simp

lemma query_ahmedabad: "with_country ''Ahmedabad'' = ''Ahmedabad, India''"
  by code_simp

text \<open>
  Claim C8.  For the city \<open>"Ahmedabad"\<close> and the jammed area \<open>"ljuniversity"\<close>, the
  normaliser turns the area into \<open>"LJ University"\<close>, and once the city is resolved that is
  the text of the first request of the refinement, a find-place biased to the city.
\<close>

theorem jammed_area_is_split:
  assumes "city_stage ''Ahmedabad, India'' n = (t, centre, n1)"
    and "fst centre \<noteq> JNull" and "snd centre \<noteq> JNull"
  shows "normalize_place_text ''ljuniversity'' = ''LJ University''
     \<and> (\<exists>more. sent (snd (geocode_city_area (Some ''Ahmedabad'') (Some ''ljuniversity'') n))
                 = sent n1 @ FindPlace ''LJ University'' (Some centre) # more)"
proof -
  obtain t2 loc n2 where r: "refine_area ''LJ University'' ''Ahmedabad'' centre n1 = (t2, loc, n2)"
    by (metis prod.collapse)
  from refine_area_first_request[OF variants_lj_university, of "''Ahmedabad''" centre n1] r
  obtain more where m: "sent n2 = sent n1 @ FindPlace ''LJ University'' (Some centre) # more"
    by auto
  have "snd (geocode_city_area (Some ''Ahmedabad'') (Some ''ljuniversity'') n) = n2"
    using assms r
    by (simp add: geocode_city_area_def or_empty_def normalize_ljuniversity normalize_ahmedabad
          query_ahmedabad Let_def)
  with m normalize_ljuniversity show ?thesis by blast
qed

theorem jammed_area_is_split_witness:
  "fst (snd (city_stage ''Ahmedabad, India'' (answers [found ''results'' 23 72]))) = (JNum 23, JNum 72)
   \<and> sent (snd (snd (city_stage ''Ahmedabad, India'' (answers [found ''results'' 23 72]))))
       = [TextSearch ''Ahmedabad, India'' None]
   \<and> take 2 (sent (snd (geocode_city_area (Some ''Ahmedabad'') (Some ''ljuniversity'')
                        (answers [found ''results'' 23 72]))))
       = [TextSearch ''Ahmedabad, India'' None, FindPlace ''LJ University'' (Some (JNum 23, JNum 72))]"
proof -
  let ?n = "answers [found ''results'' 23 72]"
  let ?cs = "city_stage ''Ahmedabad, India'' ?n"
  have h1: "?cs = (fst ?cs, fst (snd ?cs), snd (snd ?cs))" by simp
  have c: "fst (snd ?cs) = (JNum 23, JNum 72)" by code_simp
  have s1: "sent (snd (snd ?cs)) = [TextSearch ''Ahmedabad, India'' None]" by code_simp
  have h2: "fst (fst (snd ?cs)) \<noteq> JNull" and h3: "snd (fst (snd ?cs)) \<noteq> JNull"
    unfolding c by simp_all
  from jammed_area_is_split[OF h1 h2 h3] obtain more where
    "sent (snd (geocode_city_area (Some ''Ahmedabad'') (Some ''ljuniversity'') ?n))
       = sent (snd (snd ?cs)) @ FindPlace ''LJ University'' (Some (fst (snd ?cs))) # more"
    by blast
  then have "take 2 (sent (snd (geocode_city_area (Some ''Ahmedabad'') (Some ''ljuniversity'') ?n)))
       = [TextSearch ''Ahmedabad, India'' None, FindPlace ''LJ University'' (Some (JNum 23, JNum 72))]"
    unfolding c s1 by simp
  with c s1 show ?thesis by blast
qed

section \<open>The endpoint\<close>

lemma distance_matrix_sorted:
  assumes "permuting sort_rest"
    and "fst (distance_matrix sort_rest origin_lat origin_lng places n) = Inr ranked"
    and "list_all (\<lambda>x. entry_key x \<noteq> None) ranked"
  shows "sorted_wrt ranks_before ranked"
proof -
  from distance_matrix_cases[OF assms(2)] consider "ranked = []"
    | paired where "rank sort_rest paired = Inr ranked" by blast
  then show ?thesis
  proof cases
    case 1
    then show ?thesis by simp
  next
    case (2 paired)
    from rank_mset[OF assms(1) 2] have "set paired = set ranked" by (metis set_mset_mset)
    with assms(3) have "\<forall>x\<in>set paired. entry_key x \<noteq> None" by (simp add: list_all_iff)
    with 2 show ?thesis by (rule rank_sorted)
  qed
qed

lemma error_response_status: "error_response req d = Inr resp \<Longrightarrow> status_code resp = 400"
  by (auto simp: error_response_def Let_def split: if_splits option.splits)

lemma resolve_origin_reply_status:
  "fst (resolve_origin req n) = Inl (Inr resp) \<Longrightarrow> status_code resp = 400"
  by (auto simp: resolve_origin_def Let_def error_response_status split: prod.splits if_splits)

text \<open>
  Claim C7.  For every request whose origin is resolved to a coordinate that reads as a
  pair of numbers, when the nearby search answers with no results the endpoint replies
  with status 200, the origin and an empty list of places.
\<close>

theorem no_candidates_is_success:
  assumes "resolve_origin req n = (Inr (lat, lng), n1)"
    and "to_float float_of lat = Inr lat_f" and "to_float float_of lng = Inr lng_f"
    and "script n1 (length (sent n1)) = Response st (Some (JObj kvs))"
    and "map_of kvs ''results'' = None \<or> map_of kvs ''results'' = Some (JArr [])"
  shows "fst (find_dumpyards sort_rest float_of req n)
           = Inr \<lparr>status_code = 200,
                  content = [(''origin'', origin_json lat_f lng_f), (''places'', JArr [])]\<rparr>"
  using assms
  by (auto simp: find_dumpyards_def places_nearby_def send_def Let_def)

theorem no_candidates_is_success_witness:
  "resolve_origin \<lparr>q_address = None, q_lat = Some ''23'', q_lng = Some ''72'', q_city = None, q_area = None\<rparr>
      (answers [nothing_found ''results''])
     = (Inr (JStr ''23'', JStr ''72''), answers [nothing_found ''results''])
   \<and> to_float float_of_digits (JStr ''23'') = Inr 23
   \<and> to_float float_of_digits (JStr ''72'') = Inr 72
   \<and> fst (find_dumpyards raising_sort float_of_digits
        \<lparr>q_address = None, q_lat = Some ''23'', q_lng = Some ''72'', q_city = None, q_area = None\<rparr>
        (answers [nothing_found ''results'']))
       = Inr \<lparr>status_code = 200, content = [(''origin'', origin_json 23 72), (''places'', JArr [])]\<rparr>"
proof -
  let ?req = "\<lparr>q_address = None, q_lat = Some ''23'', q_lng = Some ''72'', q_city = None, q_area = None\<rparr>"
  let ?n = "answers [nothing_found ''results'']"
  let ?kvs = "[(''status'', JStr ''ZERO_RESULTS''), (''results'', JArr [])]"
  have h1: "resolve_origin ?req ?n = (Inr (JStr ''23'', JStr ''72''), ?n)"
    by (simp add: resolve_origin_def resolve_input_def param_def)
  have h2: "to_float float_of_digits (JStr ''23'') = Inr 23" by code_simp
  have h3: "to_float float_of_digits (JStr ''72'') = Inr 72" by code_simp
  have h4: "script ?n (length (sent ?n)) = Response 200 (Some (JObj ?kvs))"
    by (simp add: answers_def nothing_found_def)
  have h5: "map_of ?kvs ''results'' = None \<or> map_of ?kvs ''results'' = Some (JArr [])" by simp
  note r = no_candidates_is_success[OF h1 h2 h3 h4 h5, of raising_sort]
  show ?thesis by (intro conjI h1 h2 h3 r)
qed

text \<open>
  Claim C2, as amended.  Every reply with status 200 has an \<open>origin\<close> and a list of
  \<open>places\<close>, which is in ranking order whenever its duration and distance values are
  numbers; when the list is not empty the reply has a \<open>nearest\<close> field, which is element
  0 of the list; when the list is empty, \<open>nearest\<close> is \<open>null\<close> or is not there.
\<close>

theorem success_body_shape:
  assumes "permuting sort_rest"
    and "fst (find_dumpyards sort_rest float_of req n) = Inr resp" and "status_code resp = 200"
  shows "\<exists>lat_f lng_f ps.
           map_of (content resp) ''origin'' = Some (origin_json lat_f lng_f)
         \<and> map_of (content resp) ''places'' = Some (JArr ps)
         \<and> (list_all (\<lambda>x. entry_key x \<noteq> None) ps \<longrightarrow> sorted_wrt ranks_before ps)
         \<and> (ps \<noteq> [] \<longrightarrow> map_of (content resp) ''nearest'' = Some (ps ! 0))
         \<and> (ps = [] \<longrightarrow> map_of (content resp) ''nearest'' = None
                          \<or> map_of (content resp) ''nearest'' = Some JNull)"
proof -
  obtain r n1 where ro: "resolve_origin req n = (r, n1)" by (cases "resolve_origin req n")
  show ?thesis
  proof (cases r)
    case (Inl reply)
    with assms(2) ro have "fst (resolve_origin req n) = Inl (Inr resp)"
      by (simp add: find_dumpyards_def)
    from resolve_origin_reply_status[OF this] assms(3) show ?thesis by simp
  next
    case (Inr c)
    obtain lat lng where c: "c = (lat, lng)" by (cases c)
    let ?f = "bind_exn (to_float float_of lat) (\<lambda>a. bind_exn (to_float float_of lng) (\<lambda>b. Inr (a, b)))"
    show ?thesis
    proof (cases ?f)
      case (Inl e)
      with assms(2,3) ro Inr c show ?thesis by (auto simp: find_dumpyards_def)
    next
      case fl: (Inr p)
      obtain lat_f lng_f where p: "p = (lat_f, lng_f)" by (cases p)
      obtain cs n2 where pn: "places_nearby lat_f lng_f n1 = (cs, n2)"
        by (cases "places_nearby lat_f lng_f n1")
      show ?thesis
      proof (cases cs)
        case (Inl e)
        with assms(2,3) ro Inr c fl p pn show ?thesis by (simp add: find_dumpyards_def)
      next
        case cand: (Inr candidates)
        show ?thesis
        proof (cases "truthy candidates")
          case False
          with assms(2,3) ro Inr c fl p pn cand have
            "resp = \<lparr>status_code = 200,
                     content = [(''origin'', origin_json lat_f lng_f), (''places'', JArr [])]\<rparr>"
            by (simp add: find_dumpyards_def)
          then show ?thesis by auto
        next
          case True
          obtain rk n3 where dm: "distance_matrix sort_rest lat_f lng_f candidates n2 = (rk, n3)"
            by (cases "distance_matrix sort_rest lat_f lng_f candidates n2")
          show ?thesis
          proof (cases rk)
            case (Inl e)
            with assms(2,3) ro Inr c fl p pn cand True dm show ?thesis by (simp add: find_dumpyards_def)
          next
            case rr: (Inr ranked)
            with dm have d: "fst (distance_matrix sort_rest lat_f lng_f candidates n2) = Inr ranked"
              by simp
            have s: "list_all (\<lambda>x. entry_key x \<noteq> None) ranked \<longrightarrow> sorted_wrt ranks_before ranked"
              using distance_matrix_sorted[OF assms(1) d] by blast
            from assms(2,3) ro Inr c fl p pn cand True dm rr have
              "resp = \<lparr>status_code = 200,
                       content = [(''origin'', origin_json lat_f lng_f), (''places'', JArr ranked),
                                  (''nearest'', if ranked \<noteq> [] then ranked ! 0 else JNull)]\<rparr>"
              by (simp add: find_dumpyards_def)
            with s show ?thesis by auto
          qed
        qed
      qed
    qed
  qed
qed

theorem success_body_shape_witness:
  "permuting raising_sort
   \<and> fst (find_dumpyards raising_sort float_of_digits
        \<lparr>q_address = None, q_lat = Some ''23'', q_lng = Some ''72'', q_city = None, q_area = None\<rparr>
        (answers [Response 200 (Some (JObj [(''results'', JArr [candidate ''a'' 1 1, candidate ''b'' 2 2])])),
                  matrix_response [element_ok 600 5000, element_ok 300 2000]]))
     = Inr \<lparr>status_code = 200,
            content = [(''origin'', origin_json 23 72),
                       (''places'', JArr [ranked_entry ''b'' 2 2 300 2000, ranked_entry ''a'' 1 1 600 5000]),
                       (''nearest'', ranked_entry ''b'' 2 2 300 2000)]\<rparr>
   \<and> list_all (\<lambda>x. entry_key x \<noteq> None) [ranked_entry ''b'' 2 2 300 2000, ranked_entry ''a'' 1 1 600 5000]
   \<and> sorted_wrt ranks_before [ranked_entry ''b'' 2 2 300 2000, ranked_entry ''a'' 1 1 600 5000]"
proof -
  let ?ps = "[ranked_entry ''b'' 2 2 300 2000, ranked_entry ''a'' 1 1 600 5000]"
  let ?resp = "\<lparr>status_code = 200,
            content = [(''origin'', origin_json 23 72), (''places'', JArr ?ps),
                       (''nearest'', ranked_entry ''b'' 2 2 300 2000)]\<rparr>"
  have h1: "fst (find_dumpyards raising_sort float_of_digits
        \<lparr>q_address = None, q_lat = Some ''23'', q_lng = Some ''72'', q_city = None, q_area = None\<rparr>
        (answers [Response 200 (Some (JObj [(''results'', JArr [candidate ''a'' 1 1, candidate ''b'' 2 2])])),
                  matrix_response [element_ok 600 5000, element_ok 300 2000]])) = Inr ?resp"
    by code_simp
  have h2: "status_code ?resp = 200" by simp
  have n: "list_all (\<lambda>x. entry_key x \<noteq> None) ?ps" by code_simp
  from success_body_shape[OF permuting_raising_sort h1 h2] obtain ps where
    a: "map_of (content ?resp) ''places'' = Some (JArr ps)"
    and b: "list_all (\<lambda>x. entry_key x \<noteq> None) ps \<longrightarrow> sorted_wrt ranks_before ps"
    by blast
  from a have "ps = ?ps" by simp
  with b n have s: "sorted_wrt ranks_before ?ps" by blast
  show ?thesis by (intro conjI permuting_raising_sort h1 n s)
qed

text \<open>
  Where claim C2 fails as written: when the nearby search finds nothing, the reply has
  no \<open>nearest\<close> field.
\<close>

theorem nearest_absent_counterexample:
  "fst (find_dumpyards raising_sort float_of_digits
        \<lparr>q_address = None, q_lat = Some ''23'', q_lng = Some ''72'', q_city = None, q_area = None\<rparr>
        (answers [nothing_found ''results'']))
     = Inr \<lparr>status_code = 200,
            content = [(''origin'', JObj [(''lat'', JNum 23), (''lng'', JNum 72)]), (''places'', JArr [])]\<rparr>
   \<and> map_of [(''origin'', JObj [(''lat'', JNum 23), (''lng'', JNum 72)]), (''places'', JArr [])] ''nearest''
       = None"
  by code_simp












section \<open>Normalising twice\<close>

text \<open>
  Claim C10.  \<open>_normalize_place_text\<close> is to be idempotent: normalising its own output
  changes nothing.  The code is not, at \<open>"aschoolschool"\<close>: the substitution that should
  separate every jammed keyword resumes behind its first match and leaves the second
  \<open>school\<close> glued, so a second pass still finds work to do.  The substitution by
  lookaround that \<open>_geocode_city_area\<close> applies to an area separates both at once.
\<close>

theorem normalize_twice_differs:
  "split_suffixes ''aschoolschool'' = ''a schoolschool''
   \<and> normalize_place_text ''aschoolschool'' = ''A Schoolschool''
   \<and> normalize_place_text (normalize_place_text ''aschoolschool'') = ''A School School''
   \<and> normalize_place_text (normalize_place_text ''aschoolschool'') \<noteq> normalize_place_text ''aschoolschool''
   \<and> sub_variant None ''aschoolschool'' = ''a school school''"
  by code_simp

end
